theory Spec2Isabelle
  imports Complex_Main "HOL-Library.AList"
begin

section \<open>The syntax tree of the analysed file\<close>

text \<open>
  The analyzer (\<^verbatim>\<open>analyzer.py\<close>, class \<^verbatim>\<open>CodeQualityAnalyzer\<close>) works on the tree that
  Python's \<^verbatim>\<open>ast.parse\<close> returns and on the raw lines of the file. The tree is modelled by
  one datatype of nodes. A node class that the analyzer tests with \<^verbatim>\<open>isinstance\<close>, or whose
  attributes it reads, has a constructor of its own, with the fields of the class that
  hold child nodes (in the order of the class's \<^verbatim>\<open>_fields\<close>) and the attributes that the
  analyzer reads. So has \<^verbatim>\<open>ast.TryStar\<close>, the class of a \<^verbatim>\<open>try\<close> statement with \<^verbatim>\<open>except*\<close>
  clauses: the analyzer tests for \<^verbatim>\<open>ast.Try\<close> only, and a \<^verbatim>\<open>TryStar\<close> node is none.
  Every other node class is \<open>Other\<close> with its child nodes in field order.
  The \<^verbatim>\<open>arguments\<close> and \<^verbatim>\<open>arg\<close> objects of a function definition are nodes of the tree as
  well (\<open>ArgumentsNode\<close>, \<open>ArgNode\<close>).
\<close>

datatype const_value = Str string | NotStr

datatype 'n arg = Arg (arg_name: string) (annotation: "'n option")

datatype 'n arguments = Arguments
  (posonlyargs: "'n arg list") (args: "'n arg list") (vararg: "'n arg option")
  (kwonlyargs: "'n arg list") (kw_defaults: "'n option list") (kwarg: "'n arg option")
  (defaults: "'n list")

datatype node =
    is_Module: Module (body: "node list")
  | is_FunctionDef: FunctionDef (lineno: nat) (end_lineno: nat) (name: string)
      (fun_args: "node arguments") (body: "node list") (decorator_list: "node list")
      (returns: "node option") (type_params: "node list")
  | is_AsyncFunctionDef: AsyncFunctionDef (lineno: nat) (end_lineno: nat) (name: string)
      (fun_args: "node arguments") (body: "node list") (decorator_list: "node list")
      (returns: "node option") (type_params: "node list")
  | is_ClassDef: ClassDef (name: string) (bases: "node list") (keyword_nodes: "node list")
      (body: "node list") (decorator_list: "node list") (type_params: "node list")
  | is_For: For (lineno: nat) (target: node) (iter: node) (body: "node list")
      (orelse: "node list")
  | is_While: While (test: node) (body: "node list") (orelse: "node list")
  | is_Try: Try (body: "node list") (handlers: "node list") (orelse: "node list")
      (finalbody: "node list")
  | is_TryStar: TryStar (body: "node list") (handlers: "node list") (orelse: "node list")
      (finalbody: "node list")
  | is_ExceptHandler: ExceptHandler (lineno: nat) (handler_type: "node option")
      (body: "node list")
  | is_Expr: Expr (expr_value: node)
  | is_Call: Call (lineno: nat) (func: node) (call_args: "node list") (keyword_nodes: "node list")
  | is_Attribute: Attribute (expr_value: node) (attr: string) (ctx: node)
  | is_Name: Name (name_id: string) (ctx: node)
  | is_Constant: Constant (constant_value: const_value)
  | is_ArgumentsNode: ArgumentsNode "node arguments"
  | is_ArgNode: ArgNode "node arg"
  | is_Other: Other "node list"

fun opt_nodes :: "'a option \<Rightarrow> 'a list" where
  "opt_nodes None = []"
| "opt_nodes (Some x) = [x]"

text \<open>
  \<^verbatim>\<open>ast.iter_child_nodes\<close>: the child nodes of a node, field by field; a field that is
  \<^verbatim>\<open>None\<close> gives nothing, a list field gives its nodes in order.
\<close>

fun iter_child_nodes :: "node \<Rightarrow> node list" where
  "iter_child_nodes (Module b) = b"
| "iter_child_nodes (FunctionDef l e n a b ds r tps) =
     ArgumentsNode a # b @ ds @ opt_nodes r @ tps"
| "iter_child_nodes (AsyncFunctionDef l e n a b ds r tps) =
     ArgumentsNode a # b @ ds @ opt_nodes r @ tps"
| "iter_child_nodes (ClassDef n bs ks b ds tps) = bs @ ks @ b @ ds @ tps"
| "iter_child_nodes (For l t i b e) = t # i # b @ e"
| "iter_child_nodes (While t b e) = t # b @ e"
| "iter_child_nodes (Try b hs e f) = b @ hs @ e @ f"
| "iter_child_nodes (TryStar b hs e f) = b @ hs @ e @ f"
| "iter_child_nodes (ExceptHandler l t b) = opt_nodes t @ b"
| "iter_child_nodes (Expr v) = [v]"
| "iter_child_nodes (Call l f as ks) = f # as @ ks"
| "iter_child_nodes (Attribute v a c) = [v, c]"
| "iter_child_nodes (Name i c) = [c]"
| "iter_child_nodes (Constant v) = []"
| "iter_child_nodes (ArgumentsNode a) =
     map ArgNode (posonlyargs a) @ map ArgNode (args a) @ map ArgNode (opt_nodes (vararg a)) @
     map ArgNode (kwonlyargs a) @ concat (map opt_nodes (kw_defaults a)) @
     map ArgNode (opt_nodes (kwarg a)) @ defaults a"
| "iter_child_nodes (ArgNode a) = opt_nodes (annotation a)"
| "iter_child_nodes (Other children) = children"

text \<open>
  The queue of \<^verbatim>\<open>ast.walk\<close> shrinks in the following weight: twice the size of a node, plus
  one for a node that is not the wrapper of an \<^verbatim>\<open>arguments\<close> or \<^verbatim>\<open>arg\<close> object.
\<close>

fun weight :: "node \<Rightarrow> nat" where
  "weight (ArgumentsNode a) = 2 * size (ArgumentsNode a)"
| "weight (ArgNode a) = 2 * size (ArgNode a)"
| "weight n = 2 * size n + 1"

lemma weight_le: "weight n \<le> 2 * size n + 1"
  by (cases n) auto

lemma sum_weight_le: "sum_list (map weight ns) \<le> 2 * size_list size ns"
proof (induction ns)
  case Nil
  then show ?case by simp
next
  case (Cons n ns)
  then show ?case using weight_le [of n] by simp
qed

lemma sum_weight_opt: "sum_list (map weight (opt_nodes r)) \<le> 2 * size_option size r"
  using weight_le by (cases r) (auto simp: le_Suc_eq)

lemma sum_weight_ArgNode:
  "sum_list (map (weight \<circ> ArgNode) xs) = 2 * size_list (size_arg size) xs"
  by (induction xs) auto

lemma sum_weight_opt_ArgNode:
  "sum_list (map (weight \<circ> ArgNode) (opt_nodes r)) \<le> 2 * size_option (size_arg size) r"
  by (cases r) auto

lemma sum_weight_kw_defaults:
  "sum_list (map weight (concat (map opt_nodes kd))) \<le> 2 * size_list (size_option size) kd"
proof (induction kd)
  case Nil
  then show ?case by simp
next
  case (Cons d kd)
  then show ?case using sum_weight_opt [of d] by simp
qed

lemma weight_annotation:
  "sum_list (map weight (opt_nodes (annotation a))) < 2 * size_arg size a + 2"
  using sum_weight_opt [of "annotation a"] by (cases a) simp

lemma weight_arguments:
  "sum_list (map weight (iter_child_nodes (ArgumentsNode a))) < weight (ArgumentsNode a)"
proof (cases a)
  case (Arguments po ar va ko kd kw de)
  then show ?thesis
    using sum_weight_kw_defaults [of kd] sum_weight_le [of de]
      sum_weight_opt_ArgNode [of va] sum_weight_opt_ArgNode [of kw]
    by (simp add: sum_weight_ArgNode)
qed

lemma weight_children: "sum_list (map weight (iter_child_nodes n)) < weight n"
proof (cases n)
  case (Module b)
  then show ?thesis using sum_weight_le [of b] by simp
next
  case (FunctionDef l e nm a b ds r tps)
  then show ?thesis
    using sum_weight_le [of b] sum_weight_le [of ds] sum_weight_le [of tps]
      sum_weight_opt [of r] by simp
next
  case (AsyncFunctionDef l e nm a b ds r tps)
  then show ?thesis
    using sum_weight_le [of b] sum_weight_le [of ds] sum_weight_le [of tps]
      sum_weight_opt [of r] by simp
next
  case (ClassDef nm bs ks b ds tps)
  then show ?thesis
    using sum_weight_le [of bs] sum_weight_le [of ks] sum_weight_le [of b]
      sum_weight_le [of ds] sum_weight_le [of tps] by simp
next
  case (For l t i b e)
  then show ?thesis
    using sum_weight_le [of b] sum_weight_le [of e] weight_le [of t] weight_le [of i]
    by simp
next
  case (While t b e)
  then show ?thesis
    using sum_weight_le [of b] sum_weight_le [of e] weight_le [of t] by simp
next
  case (Try b hs e f)
  then show ?thesis
    using sum_weight_le [of b] sum_weight_le [of hs] sum_weight_le [of e]
      sum_weight_le [of f] by simp
next
  case (TryStar b hs e f)
  then show ?thesis
    using sum_weight_le [of b] sum_weight_le [of hs] sum_weight_le [of e]
      sum_weight_le [of f] by simp
next
  case (ExceptHandler l t b)
  then show ?thesis using sum_weight_le [of b] sum_weight_opt [of t] by simp
next
  case (Expr v)
  then show ?thesis using weight_le [of v] by simp
next
  case (Call l f as ks)
  then show ?thesis
    using sum_weight_le [of as] sum_weight_le [of ks] weight_le [of f] by simp
next
  case (Attribute v a c)
  then show ?thesis using weight_le [of v] weight_le [of c] by simp
next
  case (Name i c)
  then show ?thesis using weight_le [of c] by simp
next
  case (Constant v)
  then show ?thesis by simp
next
  case (ArgumentsNode a)
  then show ?thesis using weight_arguments [of a] by simp
next
  case (ArgNode a)
  then show ?thesis using weight_annotation [of a] by simp
next
  case (Other children)
  then show ?thesis using sum_weight_le [of children] by simp
qed

text \<open>
  \<^verbatim>\<open>ast.walk\<close>: breadth first, from a queue that starts with the node itself;
  each node taken from the front has its children put at the back.
\<close>

function walk_queue :: "node list \<Rightarrow> node list" where
  "walk_queue [] = []"
| "walk_queue (n # todo) = n # walk_queue (todo @ iter_child_nodes n)"
  by pat_completeness auto
termination
proof (relation "measure (\<lambda>q. sum_list (map weight q))")
  show "wf (measure (\<lambda>q. sum_list (map weight q)))" by simp
next
  fix n :: node and todo :: "node list"
  show "(todo @ iter_child_nodes n, n # todo) \<in> measure (\<lambda>q. sum_list (map weight q))"
    using weight_children [of n] by simp
qed

definition walk :: "node \<Rightarrow> node list" where
  "walk n = walk_queue [n]"

text \<open>
  \<^verbatim>\<open>ast.get_docstring(node)\<close> for a function definition: the value of the first statement
  of the body when that is an expression statement holding a string constant, cleaned by
  \<^verbatim>\<open>inspect.cleandoc\<close>. The cleaning function belongs to Python's library and differs
  between releases, so it is a parameter.
\<close>

definition get_docstring :: "(string \<Rightarrow> string) \<Rightarrow> node \<Rightarrow> string option" where
  "get_docstring cleandoc node =
     (case body node of
        [] \<Rightarrow> None
      | stmt # _ \<Rightarrow>
          if is_Expr stmt \<and> is_Constant (expr_value stmt) then
            (case constant_value (expr_value stmt) of
               Str text \<Rightarrow> Some (cleandoc text)
             | NotStr \<Rightarrow> None)
          else None)"

section \<open>Strings\<close>

text \<open>
  A source text is a \<open>string\<close>; a character stands for the code point of its number, so
  the texts of the model are the Python strings whose code points are below 256. (A text
  with a larger code point has no counterpart here.) Python floats are modelled by the real
  numbers: every constant of the analyzer is a decimal fraction with one or two digits.
\<close>

definition newline :: char where
  "newline = CHR 0x0A"

text \<open>
  White space, for \<^verbatim>\<open>str.strip\<close> and for \<^verbatim>\<open>\s\<close> in a pattern: the code points below 256 for
  which \<^verbatim>\<open>str.isspace\<close> holds. Next line (\<^verbatim>\<open>U+0085\<close>) and the no-break space (\<^verbatim>\<open>U+00A0\<close>)
  are among them.
\<close>

definition isspace :: "char \<Rightarrow> bool" where
  "isspace c = (c \<in> set [CHR 0x09, CHR 0x0A, CHR 0x0B, CHR 0x0C, CHR 0x0D,
                           CHR 0x1C, CHR 0x1D, CHR 0x1E, CHR 0x1F, CHR 0x20,
                           CHR 0x85, CHR 0xA0])"

definition strip :: "string \<Rightarrow> string" where
  "strip s = rev (dropWhile isspace (rev (dropWhile isspace s)))"

definition startswith :: "string \<Rightarrow> string \<Rightarrow> bool" where
  "startswith s p = (take (length p) s = p)"

text \<open>\<^verbatim>\<open>s.split('\n')\<close>: never empty, one more element than there are newlines.\<close>

fun split_newline :: "string \<Rightarrow> string list" where
  "split_newline [] = [[]]"
| "split_newline (c # cs) =
     (if c = newline then [] # split_newline cs
      else (case split_newline cs of
              [] \<Rightarrow> [[c]]
            | l # ls \<Rightarrow> (c # l) # ls))"

definition ascii_uppercase :: string where
  "ascii_uppercase = ''ABCDEFGHIJKLMNOPQRSTUVWXYZ''"

definition ascii_lowercase :: string where
  "ascii_lowercase = ''abcdefghijklmnopqrstuvwxyz''"

text \<open>
  The lower case form of a letter \<^verbatim>\<open>A\<close> to \<^verbatim>\<open>Z\<close>; every other character is left as it is.
  It is used to compare a character of a line with a character of a key word (a letter
  \<^verbatim>\<open>a\<close> to \<^verbatim>\<open>z\<close> or an underscore), the case ignored: among the code points below 256 only
  the letter itself and its upper case form are equal to a lower case letter in that sense.
\<close>

definition lower :: "char \<Rightarrow> char" where
  "lower c = (case map_of (zip ascii_uppercase ascii_lowercase) c of
                None \<Rightarrow> c
              | Some d \<Rightarrow> d)"

text \<open>
  \<^verbatim>\<open>str.islower\<close>: there is a lower case character and no upper case character. Below 256
  the upper case characters are \<^verbatim>\<open>A\<close> to \<^verbatim>\<open>Z\<close> and \<^verbatim>\<open>U+00C0\<close> to \<^verbatim>\<open>U+00DE\<close> without the
  multiplication sign; the lower case characters are \<^verbatim>\<open>a\<close> to \<^verbatim>\<open>z\<close>, the two ordinal
  indicators, the micro sign, and \<^verbatim>\<open>U+00DF\<close> to \<^verbatim>\<open>U+00FF\<close> without the division sign.
\<close>

definition char_isupper :: "char \<Rightarrow> bool" where
  "char_isupper c =
     (let n = (of_char c :: nat)
      in (0x41 \<le> n \<and> n \<le> 0x5A) \<or> (0xC0 \<le> n \<and> n \<le> 0xDE \<and> n \<noteq> 0xD7))"

definition char_islower :: "char \<Rightarrow> bool" where
  "char_islower c =
     (let n = (of_char c :: nat)
      in (0x61 \<le> n \<and> n \<le> 0x7A) \<or> n = 0xAA \<or> n = 0xB5 \<or> n = 0xBA \<or>
         (0xDF \<le> n \<and> n \<le> 0xFF \<and> n \<noteq> 0xF7))"

definition islower :: "string \<Rightarrow> bool" where
  "islower s = (list_ex char_islower s \<and> \<not> list_ex char_isupper s)"

text \<open>\<^verbatim>\<open>str(n)\<close> for an integer.\<close>

fun str_nat :: "nat \<Rightarrow> string" where
  "str_nat n =
     (if n < 10 then [''0123456789'' ! n]
      else str_nat (n div 10) @ [''0123456789'' ! (n mod 10)])"

declare str_nat.simps [simp del]

definition str_int :: "int \<Rightarrow> string" where
  "str_int i = (if i < 0 then ''-'' @ str_nat (nat (- i)) else str_nat (nat i))"

text \<open>
  Rounding to the nearest integer, ties to the even one, as \<^verbatim>\<open>round\<close> and the
  format \<^verbatim>\<open>.0f\<close> do; \<^verbatim>\<open>round(x, 1)\<close> rounds to one decimal in the same way.
\<close>

definition round_half_even :: "real \<Rightarrow> int" where
  "round_half_even x =
     (let f = \<lfloor>x\<rfloor>; d = x - of_int f
      in if d < 1 / 2 then f
         else if 1 / 2 < d then f + 1
         else if even f then f else f + 1)"

definition round1 :: "real \<Rightarrow> real" where
  "round1 x = of_int (round_half_even (x * 10)) / 10"

definition format_0f :: "real \<Rightarrow> string" where
  "format_0f x = str_int (round_half_even x)"

text \<open>
  The four secret patterns are \<^verbatim>\<open>KEY\s*=\s*["'].*["']\<close> for a key word \<^verbatim>\<open>KEY\<close>, searched
  with \<^verbatim>\<open>re.IGNORECASE\<close>. Such a pattern matches at the start of a string when the string
  starts with the key word in any case, followed by white space (none or more), an equals
  sign, white space, a quote, and there is another quote later before any newline. White space, the
  equals sign and the quotes exclude each other, so taking all the white space is the only
  way to match. \<^verbatim>\<open>re.search\<close> tries every position of the line.
\<close>

definition is_quote :: "char \<Rightarrow> bool" where
  "is_quote c = (c = CHR 0x22 \<or> c = CHR 0x27)"

text \<open>
  Matching the letters of the key word one after the other, the case ignored; the result is
  what follows the key word in the string.
\<close>

fun match_ignorecase :: "string \<Rightarrow> string \<Rightarrow> string option" where
  "match_ignorecase [] s = Some s"
| "match_ignorecase (k # ks) [] = None"
| "match_ignorecase (k # ks) (c # cs) =
     (if lower c = lower k then match_ignorecase ks cs else None)"

definition match_secret_here :: "string \<Rightarrow> string \<Rightarrow> bool" where
  "match_secret_here key s =
     (case match_ignorecase key s of
        None \<Rightarrow> False
      | Some after_key \<Rightarrow>
          (case dropWhile isspace after_key of
             [] \<Rightarrow> False
           | e # r \<Rightarrow>
               if e = CHR ''='' then
                 (case dropWhile isspace r of
                    [] \<Rightarrow> False
                  | q # r' \<Rightarrow>
                      if is_quote q
                      then list_ex is_quote (takeWhile (\<lambda>c. c \<noteq> newline) r')
                      else False)
               else False))"

fun suffixes_of :: "string \<Rightarrow> string list" where
  "suffixes_of [] = [[]]"
| "suffixes_of (c # cs) = (c # cs) # suffixes_of cs"

definition re_search_secret :: "string \<Rightarrow> string \<Rightarrow> bool" where
  "re_search_secret key line = list_ex (match_secret_here key) (suffixes_of line)"

definition secret_patterns :: "string list" where
  "secret_patterns = [''password'', ''api_key'', ''secret'', ''token'']"

section \<open>The state of the analyzer and its report\<close>

datatype severity = CRITICAL | HIGH | MEDIUM | LOW

text \<open>An issue is a dictionary with the keys \<^verbatim>\<open>line\<close>, \<^verbatim>\<open>issue\<close>, \<^verbatim>\<open>description\<close>, \<^verbatim>\<open>severity\<close>.\<close>

record finding =
  line :: "nat option"
  issue :: string
  description :: string
  severity :: severity

record issue_buckets =
  critical :: "finding list"
  high :: "finding list"
  medium :: "finding list"
  low :: "finding list"

record metrics_rec =
  lines_of_code :: nat
  comment_lines :: nat
  blank_lines :: nat
  "functions" :: nat
  classes :: nat
  complexity :: nat
  max_function_length :: int
  avg_function_length :: real

record scores_rec =
  "structure" :: real
  error_handling :: real
  performance :: real
  security :: real
  maintainability :: real
  best_practices :: real

text \<open>
  The attributes of a \<^verbatim>\<open>CodeQualityAnalyzer\<close> object. The attribute \<^verbatim>\<open>overall_score\<close> does
  not exist until \<^verbatim>\<open>_calculate_scores\<close> assigns it: \<open>None\<close> stands for the missing attribute.
  The attributes \<^verbatim>\<open>code\<close>, \<^verbatim>\<open>lines\<close> and \<^verbatim>\<open>tree\<close> are assigned once by \<^verbatim>\<open>analyze\<close> and only
  read afterwards; the methods below take them as arguments.
\<close>

record analyzer =
  file_path :: string
  file_name :: string
  self_issues :: issue_buckets
  self_metrics :: metrics_rec
  self_scores :: scores_rec
  self_overall_score :: "real option"

record report =
  "file" :: string
  overall_score :: real
  category_scores :: scores_rec
  metrics :: metrics_rec
  issues :: issue_buckets
  total_issues :: nat

datatype error = AttributeError string | FileNotFoundError

text \<open>A \<^verbatim>\<open>SyntaxError\<close> \<^verbatim>\<open>e\<close> of the parser: \<^verbatim>\<open>e.lineno\<close> (which may be \<^verbatim>\<open>None\<close>) and \<^verbatim>\<open>str(e)\<close>.\<close>

datatype syntax_error = SyntaxError (error_lineno: "nat option") (error_str: string)

text \<open>\<^verbatim>\<open>os.path.basename\<close>: what follows the last slash.\<close>

definition basename :: "string \<Rightarrow> string" where
  "basename p = rev (takeWhile (\<lambda>c. c \<noteq> CHR ''/'') (rev p))"

text \<open>\<^verbatim>\<open>__init__\<close>\<close>

definition init :: "string \<Rightarrow> analyzer" where
  "init path =
     \<lparr>file_path = path,
      file_name = basename path,
      self_issues = \<lparr>critical = [], high = [], medium = [], low = []\<rparr>,
      self_metrics = \<lparr>lines_of_code = 0, comment_lines = 0, blank_lines = 0, functions = 0,
        classes = 0, complexity = 0, max_function_length = 0, avg_function_length = 0\<rparr>,
      self_scores = \<lparr>structure = 0, error_handling = 0, performance = 0, security = 0,
        maintainability = 0, best_practices = 0\<rparr>,
      self_overall_score = None\<rparr>"

text \<open>\<^verbatim>\<open>self.issues[bucket].append(f)\<close>\<close>

definition append_critical :: "finding \<Rightarrow> analyzer \<Rightarrow> analyzer" where
  "append_critical f self =
     self\<lparr>self_issues := (self_issues self)\<lparr>critical := critical (self_issues self) @ [f]\<rparr>\<rparr>"

definition append_high :: "finding \<Rightarrow> analyzer \<Rightarrow> analyzer" where
  "append_high f self =
     self\<lparr>self_issues := (self_issues self)\<lparr>high := high (self_issues self) @ [f]\<rparr>\<rparr>"

definition append_medium :: "finding \<Rightarrow> analyzer \<Rightarrow> analyzer" where
  "append_medium f self =
     self\<lparr>self_issues := (self_issues self)\<lparr>medium := medium (self_issues self) @ [f]\<rparr>\<rparr>"

definition append_low :: "finding \<Rightarrow> analyzer \<Rightarrow> analyzer" where
  "append_low f self =
     self\<lparr>self_issues := (self_issues self)\<lparr>low := low (self_issues self) @ [f]\<rparr>\<rparr>"

section \<open>The analyses\<close>

subsection \<open>\<^verbatim>\<open>_analyze_metrics\<close>\<close>

definition count_line :: "string \<Rightarrow> metrics_rec \<Rightarrow> metrics_rec" where
  "count_line txt m =
     (let stripped = strip txt
      in if stripped = [] then m\<lparr>blank_lines := blank_lines m + 1\<rparr>
         else if startswith stripped ''#'' then m\<lparr>comment_lines := comment_lines m + 1\<rparr>
         else m)"

definition count_node :: "node \<Rightarrow> metrics_rec \<Rightarrow> metrics_rec" where
  "count_node node m =
     (if is_FunctionDef node then m\<lparr>functions := functions m + 1\<rparr>
      else if is_ClassDef node then m\<lparr>classes := classes m + 1\<rparr>
      else m)"

definition analyze_metrics :: "string list \<Rightarrow> node \<Rightarrow> analyzer \<Rightarrow> analyzer" where
  "analyze_metrics lines tree self =
     self\<lparr>self_metrics :=
       fold count_node (walk tree)
         (fold count_line lines ((self_metrics self)\<lparr>lines_of_code := length lines\<rparr>))\<rparr>"

subsection \<open>\<^verbatim>\<open>_check_duplication\<close> and \<^verbatim>\<open>_analyze_structure\<close>\<close>

text \<open>The dictionary \<^verbatim>\<open>line_counts\<close> is an association list in insertion order.\<close>

definition count_stripped :: "string \<Rightarrow> (string \<times> nat) list \<Rightarrow> (string \<times> nat) list" where
  "count_stripped txt line_counts =
     (let stripped = strip txt
      in if stripped \<noteq> [] \<and> \<not> startswith stripped ''#'' \<and> length stripped > 20
         then AList.update stripped
                ((case map_of line_counts stripped of None \<Rightarrow> 0 | Some c \<Rightarrow> c) + 1) line_counts
         else line_counts)"

definition check_duplication :: "string list \<Rightarrow> bool" where
  "check_duplication lines =
     list_ex (\<lambda>count. count > 2) (map snd (fold count_stripped lines []))"

definition long_function_description :: "string \<Rightarrow> int \<Rightarrow> string \<Rightarrow> string" where
  "long_function_description nm len limit =
     ''Function '' @ [CHR 0x27] @ nm @ [CHR 0x27] @ '' is '' @ str_int len @
     '' lines (>'' @ limit @ '')''"

definition structure_step ::
    "node \<Rightarrow> analyzer \<times> real \<times> int list \<Rightarrow> analyzer \<times> real \<times> int list" where
  "structure_step node acc =
     (case acc of (self, score, function_lengths) \<Rightarrow>
        if is_FunctionDef node then
          (let len = int (end_lineno node) - int (lineno node);
               function_lengths = function_lengths @ [len]
           in if len > 100 then
                (append_high \<lparr>line = Some (lineno node), issue = ''Long Function'',
                   description = long_function_description (name node) len ''100'',
                   severity = HIGH\<rparr> self,
                 score - 1.0, function_lengths)
              else if len > 50 then
                (append_medium \<lparr>line = Some (lineno node), issue = ''Long Function'',
                   description = long_function_description (name node) len ''50'',
                   severity = MEDIUM\<rparr> self,
                 score - 0.5, function_lengths)
              else (self, score, function_lengths))
        else acc)"

definition analyze_structure :: "string list \<Rightarrow> node \<Rightarrow> analyzer \<Rightarrow> analyzer" where
  "analyze_structure lines tree self0 =
     (case fold structure_step (walk tree) (self0, 10.0, []) of
        (self1, score1, function_lengths) \<Rightarrow>
          (let self2 =
                 (if function_lengths \<noteq> [] then
                    self1\<lparr>self_metrics := (self_metrics self1)
                      \<lparr>max_function_length := fold max (tl function_lengths) (hd function_lengths),
                       avg_function_length :=
                         of_int (sum_list function_lengths) / of_nat (length function_lengths)\<rparr>\<rparr>
                  else self1);
               (self3, score3) =
                 (if check_duplication lines then
                    (append_medium \<lparr>line = Some 0, issue = ''Code Duplication'',
                       description = ''Potential code duplication detected'',
                       severity = MEDIUM\<rparr> self2,
                     score1 - 1.0)
                  else (self2, score1))
           in self3\<lparr>self_scores := (self_scores self3)\<lparr>structure := max 0 score3\<rparr>\<rparr>))"

subsection \<open>\<^verbatim>\<open>_analyze_error_handling\<close>\<close>

definition error_handling_step :: "node \<Rightarrow> analyzer \<times> real \<Rightarrow> analyzer \<times> real" where
  "error_handling_step node acc =
     (case acc of (self, score) \<Rightarrow>
        if is_ExceptHandler node then
          (if handler_type node = None then
             (append_high \<lparr>line = Some (lineno node), issue = ''Bare Except Clause'',
                description =
                  ''Using bare except: catches all exceptions including system exits'',
                severity = HIGH\<rparr> self,
              score - 2.0)
           else acc)
        else acc)"

definition analyze_error_handling :: "node \<Rightarrow> analyzer \<Rightarrow> analyzer" where
  "analyze_error_handling tree self0 =
     (case fold error_handling_step (walk tree) (self0, 10.0) of
        (self1, score1) \<Rightarrow>
          (let try_count = sum_list (map (\<lambda>node. 1 :: nat) (filter is_Try (walk tree)));
               (self2, score2) =
                 (if try_count = 0 \<and> functions (self_metrics self1) > 0 then
                    (append_medium \<lparr>line = Some 0, issue = ''No Error Handling'',
                       description = ''No try/except blocks found'',
                       severity = MEDIUM\<rparr> self1,
                     score1 - 2.0)
                  else (self1, score1))
           in self2\<lparr>self_scores := (self_scores self2)\<lparr>error_handling := max 0 score2\<rparr>\<rparr>))"

subsection \<open>\<^verbatim>\<open>_analyze_performance\<close>\<close>

definition is_append_call :: "node \<Rightarrow> bool" where
  "is_append_call child =
     (is_Expr child \<and> is_Call (expr_value child) \<and> is_Attribute (func (expr_value child)) \<and>
      attr (func (expr_value child)) = ''append'')"

definition performance_step :: "node \<Rightarrow> analyzer \<times> real \<Rightarrow> analyzer \<times> real" where
  "performance_step node acc =
     (case acc of (self, score) \<Rightarrow>
        if is_For node then
          (if list_ex is_append_call (walk node) then
             (append_low \<lparr>line = Some (lineno node),
                issue = ''List Comprehension Opportunity'',
                description = ''Consider using list comprehension'',
                severity = LOW\<rparr> self,
              score - 0.3)
           else acc)
        else acc)"

definition analyze_performance :: "node \<Rightarrow> analyzer \<Rightarrow> analyzer" where
  "analyze_performance tree self0 =
     (case fold performance_step (walk tree) (self0, 10.0) of
        (self1, score1) \<Rightarrow>
          self1\<lparr>self_scores := (self_scores self1)\<lparr>performance := max 0 score1\<rparr>\<rparr>)"

subsection \<open>\<^verbatim>\<open>_analyze_security\<close>\<close>

definition secret_step :: "nat \<Rightarrow> string \<Rightarrow> string \<Rightarrow> analyzer \<times> real \<Rightarrow> analyzer \<times> real" where
  "secret_step i txt pattern acc =
     (case acc of (self, score) \<Rightarrow>
        if re_search_secret pattern txt then
          (append_critical \<lparr>line = Some i, issue = ''Hardcoded Secret'',
             description = ''Potential hardcoded secret found'',
             severity = CRITICAL\<rparr> self,
           score - 3.0)
        else acc)"

definition dangerous_step :: "node \<Rightarrow> analyzer \<times> real \<Rightarrow> analyzer \<times> real" where
  "dangerous_step node acc =
     (case acc of (self, score) \<Rightarrow>
        if is_Call node then
          (if is_Name (func node) then
             (if name_id (func node) \<in> set [''eval'', ''exec''] then
                (append_critical \<lparr>line = Some (lineno node), issue = ''Dangerous Function'',
                   description = ''Use of '' @ name_id (func node) @ ''() is dangerous'',
                   severity = CRITICAL\<rparr> self,
                 score - 3.0)
              else acc)
           else acc)
        else acc)"

definition analyze_security :: "string list \<Rightarrow> node \<Rightarrow> analyzer \<Rightarrow> analyzer" where
  "analyze_security lines tree self0 =
     (case fold dangerous_step (walk tree)
             (fold (\<lambda>(i, txt). fold (secret_step i txt) secret_patterns)
                (List.enumerate 1 lines) (self0, 10.0)) of
        (self1, score1) \<Rightarrow>
          self1\<lparr>self_scores := (self_scores self1)\<lparr>security := max 0 score1\<rparr>\<rparr>)"

subsection \<open>\<^verbatim>\<open>_analyze_maintainability\<close>\<close>

text \<open>The truth value of what \<^verbatim>\<open>ast.get_docstring\<close> returns: neither \<^verbatim>\<open>None\<close> nor empty.\<close>

definition has_docstring :: "(string \<Rightarrow> string) \<Rightarrow> node \<Rightarrow> bool" where
  "has_docstring cleandoc node =
     (case get_docstring cleandoc node of None \<Rightarrow> False | Some text \<Rightarrow> text \<noteq> [])"

definition docs_step :: "(string \<Rightarrow> string) \<Rightarrow> node \<Rightarrow> nat \<times> nat \<Rightarrow> nat \<times> nat" where
  "docs_step cleandoc node acc =
     (case acc of (functions_with_docs, total_functions) \<Rightarrow>
        if is_FunctionDef node then
          (if has_docstring cleandoc node then (functions_with_docs + 1, total_functions + 1)
           else (functions_with_docs, total_functions + 1))
        else acc)"

text \<open>\<^verbatim>\<open>node.returns or any(arg.annotation for arg in node.args.args)\<close>\<close>

definition has_hints :: "node \<Rightarrow> bool" where
  "has_hints node =
     (returns node \<noteq> None \<or> list_ex (\<lambda>a. annotation a \<noteq> None) (args (fun_args node)))"

definition hints_step :: "node \<Rightarrow> nat \<Rightarrow> nat" where
  "hints_step node functions_with_hints =
     (if is_FunctionDef node then
        (if has_hints node then functions_with_hints + 1 else functions_with_hints)
      else functions_with_hints)"

definition analyze_maintainability ::
    "(string \<Rightarrow> string) \<Rightarrow> node \<Rightarrow> analyzer \<Rightarrow> analyzer" where
  "analyze_maintainability cleandoc tree self0 =
     (case fold (docs_step cleandoc) (walk tree) (0, 0) of
        (functions_with_docs, total_functions) \<Rightarrow>
          (let (self1, score1) =
                 (if total_functions > 0 then
                    (let doc_coverage =
                           (real functions_with_docs / real total_functions) * 100
                     in if doc_coverage < 50 then
                          (append_medium \<lparr>line = Some 0, issue = ''Low Documentation'',
                             description = ''Only '' @ format_0f doc_coverage @
                               ''% of functions have docstrings'',
                             severity = MEDIUM\<rparr> self0,
                           10.0 - 2.0)
                        else (self0, 10.0))
                  else (self0, 10.0));
               functions_with_hints = fold hints_step (walk tree) 0;
               (self2, score2) =
                 (if total_functions > 0 then
                    (let hint_coverage =
                           (real functions_with_hints / real total_functions) * 100
                     in if hint_coverage < 30 then
                          (append_low \<lparr>line = Some 0, issue = ''Missing Type Hints'',
                             description = ''Only '' @ format_0f hint_coverage @
                               ''% of functions have type hints'',
                             severity = LOW\<rparr> self1,
                           score1 - 1.0)
                        else (self1, score1))
                  else (self1, score1))
           in self2\<lparr>self_scores := (self_scores self2)\<lparr>maintainability := max 0 score2\<rparr>\<rparr>))"

subsection \<open>\<^verbatim>\<open>_analyze_best_practices\<close>\<close>

definition print_step :: "node \<Rightarrow> analyzer \<times> real \<Rightarrow> analyzer \<times> real" where
  "print_step node acc =
     (case acc of (self, score) \<Rightarrow>
        if is_Call node then
          (if is_Name (func node) \<and> name_id (func node) = ''print'' then
             (append_low \<lparr>line = Some (lineno node), issue = ''Print Statement'',
                description = ''Consider using logging instead of print()'',
                severity = LOW\<rparr> self,
              score - 0.2)
           else acc)
        else acc)"

definition naming_step :: "node \<Rightarrow> analyzer \<times> real \<Rightarrow> analyzer \<times> real" where
  "naming_step node acc =
     (case acc of (self, score) \<Rightarrow>
        if is_FunctionDef node then
          (if \<not> islower (name node) \<and> name node \<noteq> ''__init__'' then
             (append_low \<lparr>line = Some (lineno node), issue = ''Naming Convention'',
                description = ''Function '' @ [CHR 0x27] @ name node @ [CHR 0x27] @
                  '' should use snake_case'',
                severity = LOW\<rparr> self,
              score - 0.3)
           else acc)
        else acc)"

definition analyze_best_practices :: "node \<Rightarrow> analyzer \<Rightarrow> analyzer" where
  "analyze_best_practices tree self0 =
     (case fold naming_step (walk tree) (fold print_step (walk tree) (self0, 10.0)) of
        (self1, score1) \<Rightarrow>
          self1\<lparr>self_scores := (self_scores self1)\<lparr>best_practices := max 0 score1\<rparr>\<rparr>)"

subsection \<open>\<^verbatim>\<open>_calculate_scores\<close>, \<^verbatim>\<open>generate_report\<close> and \<^verbatim>\<open>analyze\<close>\<close>

text \<open>
  The keys of the dictionaries \<^verbatim>\<open>weights\<close> and \<^verbatim>\<open>scores\<close> are the fields of the record of
  scores, in the order in which the dictionaries were filled.
\<close>

definition weights :: "((scores_rec \<Rightarrow> real) \<times> real) list" where
  "weights = [(structure, 0.20), (error_handling, 0.20), (performance, 0.15),
              (security, 0.15), (maintainability, 0.15), (best_practices, 0.15)]"

definition calculate_scores :: "analyzer \<Rightarrow> analyzer" where
  "calculate_scores self =
     self\<lparr>self_overall_score :=
       Some (sum_list (map (\<lambda>(category, weight). category (self_scores self) * weight)
                         weights))\<rparr>"

definition generate_report :: "analyzer \<Rightarrow> error + report" where
  "generate_report self =
     (case self_overall_score self of
        None \<Rightarrow> Inl (AttributeError ''overall_score'')
      | Some score \<Rightarrow>
          Inr \<lparr>file = file_name self,
               overall_score = round1 score,
               category_scores = self_scores self,
               metrics = self_metrics self,
               issues = self_issues self,
               total_issues =
                 sum_list (map length [critical (self_issues self), high (self_issues self),
                                       medium (self_issues self), low (self_issues self)])\<rparr>)"

text \<open>
  \<^verbatim>\<open>analyze\<close>, given the parser, the text that was read from the file and the object. The
  result is the exception raised or the report returned, together with the object as the
  call leaves it.
\<close>

definition run_analyses ::
    "(string \<Rightarrow> string) \<Rightarrow> string list \<Rightarrow> node \<Rightarrow> analyzer \<Rightarrow> analyzer" where
  "run_analyses cleandoc lines tree self =
     calculate_scores
       (analyze_best_practices tree
         (analyze_maintainability cleandoc tree
           (analyze_security lines tree
             (analyze_performance tree
               (analyze_error_handling tree
                 (analyze_structure lines tree
                   (analyze_metrics lines tree self)))))))"

definition analyze ::
    "(string \<Rightarrow> syntax_error + node) \<Rightarrow> (string \<Rightarrow> string) \<Rightarrow> string \<Rightarrow> analyzer \<Rightarrow>
     error + report \<times> analyzer" where
  "analyze parse cleandoc code self0 =
     (let lines = split_newline code
      in case parse code of
           Inl e \<Rightarrow>
             (let self1 = append_critical \<lparr>line = error_lineno e, issue = ''Syntax Error'',
                            description = error_str e, severity = CRITICAL\<rparr> self0
              in case generate_report self1 of
                   Inl err \<Rightarrow> Inl err
                 | Inr rep \<Rightarrow> Inr (rep, self1))
         | Inr tree \<Rightarrow>
             (let self1 = run_analyses cleandoc lines tree self0
              in case generate_report self1 of
                   Inl err \<Rightarrow> Inl err
                 | Inr rep \<Rightarrow> Inr (rep, self1)))"

subsection \<open>\<^verbatim>\<open>print_report\<close> and the loop of \<^verbatim>\<open>main\<close>\<close>

text \<open>\<^verbatim>\<open>_get_rating\<close>: the number of filled stars of the string it returns.\<close>

definition get_rating :: "real \<Rightarrow> nat" where
  "get_rating score =
     (if score \<ge> 9.0 then 5
      else if score \<ge> 7.0 then 4
      else if score \<ge> 5.0 then 3
      else if score \<ge> 3.0 then 2
      else 1)"

datatype verdict =
    PRODUCTION_READY_Excellent
  | PRODUCTION_READY_Good
  | NOT_PRODUCTION_READY
  | NEEDS_IMPROVEMENT

text \<open>\<^verbatim>\<open>report['category_scores'].items()\<close>\<close>

definition items :: "scores_rec \<Rightarrow> (string \<times> real) list" where
  "items sc = [(''structure'', structure sc), (''error_handling'', error_handling sc),
               (''performance'', performance sc), (''security'', security sc),
               (''maintainability'', maintainability sc),
               (''best_practices'', best_practices sc)]"

text \<open>
  Of what \<^verbatim>\<open>print_report\<close> prints, the rating of the headline and the last line, the
  verdict. The variable \<^verbatim>\<open>score\<close> is assigned the overall score first; the loop that prints
  the category scores has \<^verbatim>\<open>score\<close> as its loop variable and so assigns it again, once per
  category; the verdict reads \<^verbatim>\<open>score\<close> after that loop.
\<close>

definition print_report :: "report \<Rightarrow> nat \<times> verdict" where
  "print_report rep =
     (let score0 = overall_score rep;
          rating = get_rating score0;
          score = fold (\<lambda>(category, score') _. score') (items (category_scores rep)) score0
      in (rating,
          if score \<ge> 9.0 \<and> critical (issues rep) = [] then PRODUCTION_READY_Excellent
          else if score \<ge> 7.0 \<and> critical (issues rep) = [] then PRODUCTION_READY_Good
          else if critical (issues rep) \<noteq> [] then NOT_PRODUCTION_READY
          else NEEDS_IMPROVEMENT))"

text \<open>
  The loop of \<^verbatim>\<open>main\<close> over the files to analyse: a new object for each file, its analysis,
  its printed report. The file system gives the text of a path. An exception ends the run.
\<close>

fun analyze_files ::
    "(string \<Rightarrow> syntax_error + node) \<Rightarrow> (string \<Rightarrow> string) \<Rightarrow> (string \<Rightarrow> string option) \<Rightarrow>
     string list \<Rightarrow> error + (report \<times> nat \<times> verdict) list" where
  "analyze_files parse cleandoc fs [] = Inr []"
| "analyze_files parse cleandoc fs (path # paths) =
     (case fs path of
        None \<Rightarrow> Inl FileNotFoundError
      | Some code \<Rightarrow>
          (case analyze parse cleandoc code (init path) of
             Inl err \<Rightarrow> Inl err
           | Inr (rep, self1) \<Rightarrow>
               (case analyze_files parse cleandoc fs paths of
                  Inl err \<Rightarrow> Inl err
                | Inr reps \<Rightarrow> Inr ((rep, print_report rep) # reps))))"

section \<open>Notions used in the statements\<close>

text \<open>
  The nodes that each check selects from the walk over the tree, and the issues that the
  checks record.
\<close>

definition function_length :: "node \<Rightarrow> int" where
  "function_length n = int (end_lineno n) - int (lineno n)"

definition function_defs :: "node \<Rightarrow> node list" where
  "function_defs tree = filter is_FunctionDef (walk tree)"

definition class_defs :: "node \<Rightarrow> node list" where
  "class_defs tree = filter is_ClassDef (walk tree)"

definition try_blocks :: "node \<Rightarrow> node list" where
  "try_blocks tree = filter is_Try (walk tree)"

definition bare_handlers :: "node \<Rightarrow> node list" where
  "bare_handlers tree =
     filter (\<lambda>n. is_ExceptHandler n \<and> handler_type n = None) (walk tree)"

definition bare_except_issue :: "node \<Rightarrow> finding" where
  "bare_except_issue n =
     \<lparr>line = Some (lineno n), issue = ''Bare Except Clause'',
      description = ''Using bare except: catches all exceptions including system exits'',
      severity = HIGH\<rparr>"

definition no_error_handling_issue :: finding where
  "no_error_handling_issue =
     \<lparr>line = Some 0, issue = ''No Error Handling'',
      description = ''No try/except blocks found'', severity = MEDIUM\<rparr>"

definition append_loops :: "node \<Rightarrow> node list" where
  "append_loops tree =
     filter (\<lambda>n. is_For n \<and> list_ex is_append_call (walk n)) (walk tree)"

definition list_comprehension_issue :: "node \<Rightarrow> finding" where
  "list_comprehension_issue n =
     \<lparr>line = Some (lineno n), issue = ''List Comprehension Opportunity'',
      description = ''Consider using list comprehension'', severity = LOW\<rparr>"

definition hardcoded_secret_issue :: "nat \<Rightarrow> finding" where
  "hardcoded_secret_issue i =
     \<lparr>line = Some i, issue = ''Hardcoded Secret'',
      description = ''Potential hardcoded secret found'', severity = CRITICAL\<rparr>"

definition matching_patterns :: "string \<Rightarrow> string list" where
  "matching_patterns txt = filter (\<lambda>pattern. re_search_secret pattern txt) secret_patterns"

definition secret_issues :: "(nat \<times> string) list \<Rightarrow> finding list" where
  "secret_issues numbered =
     concat (map (\<lambda>(i, txt). map (\<lambda>pattern. hardcoded_secret_issue i) (matching_patterns txt))
               numbered)"

definition dangerous_calls :: "node \<Rightarrow> node list" where
  "dangerous_calls tree =
     filter (\<lambda>n. is_Call n \<and> is_Name (func n) \<and> name_id (func n) \<in> set [''eval'', ''exec''])
       (walk tree)"

definition dangerous_function_issue :: "node \<Rightarrow> finding" where
  "dangerous_function_issue n =
     \<lparr>line = Some (lineno n), issue = ''Dangerous Function'',
      description = ''Use of '' @ name_id (func n) @ ''() is dangerous'',
      severity = CRITICAL\<rparr>"

definition print_calls :: "node \<Rightarrow> node list" where
  "print_calls tree =
     filter (\<lambda>n. is_Call n \<and> is_Name (func n) \<and> name_id (func n) = ''print'') (walk tree)"

definition print_statement_issue :: "node \<Rightarrow> finding" where
  "print_statement_issue n =
     \<lparr>line = Some (lineno n), issue = ''Print Statement'',
      description = ''Consider using logging instead of print()'', severity = LOW\<rparr>"

definition badly_named :: "node \<Rightarrow> node list" where
  "badly_named tree =
     filter (\<lambda>n. is_FunctionDef n \<and> \<not> islower (name n) \<and> name n \<noteq> ''__init__'') (walk tree)"

definition naming_convention_issue :: "node \<Rightarrow> finding" where
  "naming_convention_issue n =
     \<lparr>line = Some (lineno n), issue = ''Naming Convention'',
      description = ''Function '' @ [CHR 0x27] @ name n @ [CHR 0x27] @
        '' should use snake_case'',
      severity = LOW\<rparr>"

definition documented :: "(string \<Rightarrow> string) \<Rightarrow> node \<Rightarrow> node list" where
  "documented cleandoc tree = filter (has_docstring cleandoc) (function_defs tree)"

definition hinted :: "node \<Rightarrow> node list" where
  "hinted tree = filter has_hints (function_defs tree)"

definition doc_coverage :: "(string \<Rightarrow> string) \<Rightarrow> node \<Rightarrow> real" where
  "doc_coverage cleandoc tree =
     real (length (documented cleandoc tree)) / real (length (function_defs tree)) * 100"

definition hint_coverage :: "node \<Rightarrow> real" where
  "hint_coverage tree = real (length (hinted tree)) / real (length (function_defs tree)) * 100"

definition low_documentation :: "(string \<Rightarrow> string) \<Rightarrow> node \<Rightarrow> bool" where
  "low_documentation cleandoc tree =
     (function_defs tree \<noteq> [] \<and> doc_coverage cleandoc tree < 50)"

definition missing_type_hints :: "node \<Rightarrow> bool" where
  "missing_type_hints tree = (function_defs tree \<noteq> [] \<and> hint_coverage tree < 30)"

definition low_documentation_issue :: "(string \<Rightarrow> string) \<Rightarrow> node \<Rightarrow> finding" where
  "low_documentation_issue cleandoc tree =
     \<lparr>line = Some 0, issue = ''Low Documentation'',
      description = ''Only '' @ format_0f (doc_coverage cleandoc tree) @
        ''% of functions have docstrings'',
      severity = MEDIUM\<rparr>"

definition missing_type_hints_issue :: "node \<Rightarrow> finding" where
  "missing_type_hints_issue tree =
     \<lparr>line = Some 0, issue = ''Missing Type Hints'',
      description = ''Only '' @ format_0f (hint_coverage tree) @
        ''% of functions have type hints'',
      severity = LOW\<rparr>"

definition very_long_functions :: "node \<Rightarrow> node list" where
  "very_long_functions tree = filter (\<lambda>n. function_length n > 100) (function_defs tree)"

definition long_functions :: "node \<Rightarrow> node list" where
  "long_functions tree =
     filter (\<lambda>n. \<not> function_length n > 100 \<and> function_length n > 50) (function_defs tree)"

definition long_function_issue :: "string \<Rightarrow> severity \<Rightarrow> node \<Rightarrow> finding" where
  "long_function_issue limit sev n =
     \<lparr>line = Some (lineno n), issue = ''Long Function'',
      description = long_function_description (name n) (function_length n) limit,
      severity = sev\<rparr>"

definition code_duplication_issue :: finding where
  "code_duplication_issue =
     \<lparr>line = Some 0, issue = ''Code Duplication'',
      description = ''Potential code duplication detected'', severity = MEDIUM\<rparr>"

definition function_lengths :: "node \<Rightarrow> int list" where
  "function_lengths tree = map function_length (function_defs tree)"

text \<open>
  What \<^verbatim>\<open>generate_report\<close> returns for an object whose overall score has been assigned,
  and the weighted sum of the six category scores.
\<close>

definition report_of :: "analyzer \<Rightarrow> real \<Rightarrow> report" where
  "report_of self score =
     \<lparr>file = file_name self, overall_score = round1 score,
      category_scores = self_scores self, metrics = self_metrics self,
      issues = self_issues self,
      total_issues = length (critical (self_issues self)) + length (high (self_issues self)) +
        length (medium (self_issues self)) + length (low (self_issues self))\<rparr>"

definition weighted_sum :: "scores_rec \<Rightarrow> real" where
  "weighted_sum sc =
     0.20 * structure sc + 0.20 * error_handling sc + 0.15 * performance sc +
     0.15 * security sc + 0.15 * maintainability sc + 0.15 * best_practices sc"

text \<open>
  What the claim on secrets says of a line, in words of its own: the line matches the
  pattern of a key word when it contains the key word, written in any mix of upper and
  lower case, then white space (or none), an equals sign, white space (or none), and a
  quoted string: a quote, any characters but a newline, a quote. (A character and a
  character of the key word are the same, the case ignored, when they are equal or one is
  a letter \<^verbatim>\<open>A\<close> to \<^verbatim>\<open>Z\<close> and the other the same letter \<^verbatim>\<open>a\<close> to \<^verbatim>\<open>z\<close>.)
\<close>

definition same_ignoring_case :: "char \<Rightarrow> char \<Rightarrow> bool" where
  "same_ignoring_case c k =
     (c = k \<or> (c, k) \<in> set (zip ascii_uppercase ascii_lowercase) \<or>
      (k, c) \<in> set (zip ascii_uppercase ascii_lowercase))"

definition matches_secret_pattern :: "string \<Rightarrow> string \<Rightarrow> bool" where
  "matches_secret_pattern key txt =
     (\<exists>before k ws1 ws2 q inside q' after.
        txt = before @ k @ ws1 @ ''='' @ ws2 @ [q] @ inside @ [q'] @ after \<and>
        list_all2 same_ignoring_case k key \<and>
        list_all isspace ws1 \<and> list_all isspace ws2 \<and>
        is_quote q \<and> is_quote q' \<and> newline \<notin> set inside)"

text \<open>The \<^verbatim>\<open>try\<close> statements of a file, with \<^verbatim>\<open>except\<close> or with \<^verbatim>\<open>except*\<close> clauses.\<close>

definition try_statements :: "node \<Rightarrow> node list" where
  "try_statements tree = filter (\<lambda>n. is_Try n \<or> is_TryStar n) (walk tree)"

text \<open>
  The report as a function of the base name of the path, the lines of the text and the
  tree: what the analyses compute when they start from the values that \<^verbatim>\<open>__init__\<close> sets.
\<close>

definition issues_of_text :: "(string \<Rightarrow> string) \<Rightarrow> string list \<Rightarrow> node \<Rightarrow> issue_buckets" where
  "issues_of_text cleandoc lines tree =
     \<lparr>critical = secret_issues (List.enumerate 1 lines) @
        map dangerous_function_issue (dangerous_calls tree),
      high = map (long_function_issue ''100'' HIGH) (very_long_functions tree) @
        map bare_except_issue (bare_handlers tree),
      medium = map (long_function_issue ''50'' MEDIUM) (long_functions tree) @
        (if check_duplication lines then [code_duplication_issue] else []) @
        (if try_blocks tree = [] \<and> function_defs tree \<noteq> [] then [no_error_handling_issue]
         else []) @
        (if low_documentation cleandoc tree then [low_documentation_issue cleandoc tree]
         else []),
      low = map list_comprehension_issue (append_loops tree) @
        (if missing_type_hints tree then [missing_type_hints_issue tree] else []) @
        map print_statement_issue (print_calls tree) @
        map naming_convention_issue (badly_named tree)\<rparr>"

definition scores_of_text :: "(string \<Rightarrow> string) \<Rightarrow> string list \<Rightarrow> node \<Rightarrow> scores_rec" where
  "scores_of_text cleandoc lines tree =
     \<lparr>structure =
        max 0 (10 - real (length (very_long_functions tree)) -
               0.5 * real (length (long_functions tree)) -
               (if check_duplication lines then 1 else 0)),
      error_handling =
        max 0 (10 - 2 * real (length (bare_handlers tree)) -
               (if try_blocks tree = [] \<and> function_defs tree \<noteq> [] then 2 else 0)),
      performance = max 0 (10 - 0.3 * real (length (append_loops tree))),
      security =
        max 0 (10 - 3 * real (length (secret_issues (List.enumerate 1 lines))) -
               3 * real (length (dangerous_calls tree))),
      maintainability =
        max 0 (10 - (if low_documentation cleandoc tree then 2 else 0) -
               (if missing_type_hints tree then 1 else 0)),
      best_practices =
        max 0 (10 - 0.2 * real (length (print_calls tree)) -
               0.3 * real (length (badly_named tree)))\<rparr>"

definition metrics_of_text :: "string list \<Rightarrow> node \<Rightarrow> metrics_rec" where
  "metrics_of_text lines tree =
     \<lparr>lines_of_code = length lines,
      comment_lines = length (filter (\<lambda>t. strip t \<noteq> [] \<and> startswith (strip t) ''#'') lines),
      blank_lines = length (filter (\<lambda>t. strip t = []) lines),
      functions = length (function_defs tree),
      classes = length (class_defs tree),
      complexity = 0,
      max_function_length =
        (if function_defs tree \<noteq> [] then
           fold max (tl (function_lengths tree)) (hd (function_lengths tree))
         else 0),
      avg_function_length =
        (if function_defs tree \<noteq> [] then
           of_int (sum_list (function_lengths tree)) / of_nat (length (function_lengths tree))
         else 0)\<rparr>"

definition report_of_text ::
    "(string \<Rightarrow> string) \<Rightarrow> string \<Rightarrow> string list \<Rightarrow> node \<Rightarrow> report" where
  "report_of_text cleandoc nm lines tree =
     \<lparr>file = nm,
      overall_score = round1 (weighted_sum (scores_of_text cleandoc lines tree)),
      category_scores = scores_of_text cleandoc lines tree,
      metrics = metrics_of_text lines tree,
      issues = issues_of_text cleandoc lines tree,
      total_issues =
        length (critical (issues_of_text cleandoc lines tree)) +
        length (high (issues_of_text cleandoc lines tree)) +
        length (medium (issues_of_text cleandoc lines tree)) +
        length (low (issues_of_text cleandoc lines tree))\<rparr>"

section \<open>Example files\<close>

text \<open>
  Small source files with the trees that \<^verbatim>\<open>ast.parse\<close> builds for them. A context object
  (\<^verbatim>\<open>Load\<close>, \<^verbatim>\<open>Store\<close>) and a \<^verbatim>\<open>pass\<close> statement are nodes without children.
\<close>

definition load :: node where
  "load = Other []"

definition no_arguments :: "node arguments" where
  "no_arguments = Arguments [] [] None [] [] None []"

definition pass_stmt :: node where
  "pass_stmt = Other []"

text \<open>\<^verbatim>\<open>def f():\<close> followed by an indented \<^verbatim>\<open>pass\<close>\<close>

definition code_def_f :: string where
  "code_def_f = ''def f():'' @ [newline] @ ''    pass''"

definition tree_def_f :: node where
  "tree_def_f = Module [FunctionDef 1 2 ''f'' no_arguments [pass_stmt] [] None []]"

text \<open>Sixteen lines \<^verbatim>\<open>print(1)\<close>\<close>

definition print_stmt :: "nat \<Rightarrow> node" where
  "print_stmt l = Expr (Call l (Name ''print'' load) [Constant NotStr] [])"

definition tree_prints :: node where
  "tree_prints = Module (map print_stmt [1, 2, 3, 4, 5, 6, 7, 8, 9, 10, 11, 12, 13, 14, 15, 16])"

definition code_prints :: string where
  "code_prints = concat (replicate 15 (''print(1)'' @ [newline])) @ ''print(1)''"

text \<open>
  A function with a bare handler:
  \<^verbatim>\<open>def g():\<close>, \<^verbatim>\<open>    try:\<close>, \<^verbatim>\<open>        pass\<close>, \<^verbatim>\<open>    except:\<close>, \<^verbatim>\<open>        pass\<close>
\<close>

definition code_bare :: string where
  "code_bare = ''def g():'' @ [newline] @ ''    try:'' @ [newline] @ ''        pass'' @
     [newline] @ ''    except:'' @ [newline] @ ''        pass''"

definition tree_bare :: node where
  "tree_bare =
     Module [FunctionDef 1 5 ''g'' no_arguments
               [Try [pass_stmt] [ExceptHandler 4 None [pass_stmt]] [] []] [] None []]"

text \<open>An async function only: \<^verbatim>\<open>async def Fetch():\<close> followed by an indented \<^verbatim>\<open>pass\<close>\<close>

definition code_async :: string where
  "code_async = ''async def Fetch():'' @ [newline] @ ''    pass''"

definition tree_async :: node where
  "tree_async = Module [AsyncFunctionDef 1 2 ''Fetch'' no_arguments [pass_stmt] [] None []]"

text \<open>One line, \<^verbatim>\<open>password = "x"\<close>: an assignment of a constant to a name\<close>

definition code_password :: string where
  "code_password = ''password = '' @ [CHR 0x22] @ ''x'' @ [CHR 0x22]"

definition tree_password :: node where
  "tree_password = Module [Other [Name ''password'' load, Constant (Str ''x'')]]"

text \<open>A while loop that appends: \<^verbatim>\<open>while c:\<close> followed by an indented \<^verbatim>\<open>xs.append(1)\<close>\<close>

definition append_stmt :: "nat \<Rightarrow> string \<Rightarrow> node" where
  "append_stmt l xs =
     Expr (Call l (Attribute (Name xs load) ''append'' load) [Constant NotStr] [])"

definition code_while :: string where
  "code_while = ''while c:'' @ [newline] @ ''    xs.append(1)''"

definition while_loop :: node where
  "while_loop = While (Name ''c'' load) [append_stmt 2 ''xs''] []"

definition tree_while :: node where
  "tree_while = Module [while_loop]"

text \<open>
  A for loop that appends twice:
  \<^verbatim>\<open>for x in ys:\<close>, \<^verbatim>\<open>    a.append(x)\<close>, \<^verbatim>\<open>    b.append(x)\<close>
\<close>

definition code_for :: string where
  "code_for = ''for x in ys:'' @ [newline] @ ''    a.append(x)'' @ [newline] @
     ''    b.append(x)''"

definition for_loop :: node where
  "for_loop = For 1 (Name ''x'' load) (Name ''ys'' load)
     [append_stmt 2 ''a'', append_stmt 3 ''b''] []"

definition tree_for :: node where
  "tree_for = Module [for_loop]"

text \<open>
  A function whose only parameter is keyword-only and annotated:
  \<^verbatim>\<open>def f(*, x: int):\<close> followed by an indented \<^verbatim>\<open>pass\<close>
\<close>

definition code_kwonly :: string where
  "code_kwonly = ''def f(*, x: int):'' @ [newline] @ ''    pass''"

definition kwonly_def :: node where
  "kwonly_def =
     FunctionDef 1 2 ''f''
       (Arguments [] [] None [Arg ''x'' (Some (Name ''int'' load))] [None] None [])
       [pass_stmt] [] None []"

definition tree_kwonly :: node where
  "tree_kwonly = Module [kwonly_def]"

text \<open>A parser that gives the tree of the example file at hand.\<close>

definition parses_to :: "node \<Rightarrow> string \<Rightarrow> syntax_error + node" where
  "parses_to tree code = Inr tree"

text \<open>
  Two lines. The first holds four assignments, one for each key word, in upper and mixed
  case:
  \<^verbatim>\<open>PassWord = "a"; API_KEY='b'; Secret ="c"; TOKEN= 'd'\<close>.
  The second is a comment with a no-break space (\<^verbatim>\<open>U+00A0\<close>) before the equals sign and
  a next-line character (\<^verbatim>\<open>U+0085\<close>) after it:
  \<^verbatim>\<open># password\<close>, the no-break space, \<^verbatim>\<open>=\<close>, the next-line character, \<^verbatim>\<open>"x"\<close>.
\<close>

definition code_four_keys :: string where
  "code_four_keys =
     ''PassWord = '' @ [CHR 0x22] @ ''a'' @ [CHR 0x22] @
     ''; API_KEY='' @ [CHR 0x27] @ ''b'' @ [CHR 0x27] @
     ''; Secret ='' @ [CHR 0x22] @ ''c'' @ [CHR 0x22] @
     ''; TOKEN= '' @ [CHR 0x27] @ ''d'' @ [CHR 0x27]"

definition code_no_break_space :: string where
  "code_no_break_space =
     ''# password'' @ [CHR 0xA0] @ ''='' @ [CHR 0x85] @ [CHR 0x22] @ ''x'' @ [CHR 0x22]"

definition code_keys :: string where
  "code_keys = code_four_keys @ [newline] @ code_no_break_space"

definition tree_keys :: node where
  "tree_keys =
     Module [Other [Name ''PassWord'' load, Constant (Str ''a'')],
             Other [Name ''API_KEY'' load, Constant (Str ''b'')],
             Other [Name ''Secret'' load, Constant (Str ''c'')],
             Other [Name ''TOKEN'' load, Constant (Str ''d'')]]"

text \<open>
  A function with a \<^verbatim>\<open>try\<close> statement whose clause is \<^verbatim>\<open>except*\<close>:
  \<^verbatim>\<open>def g():\<close>, \<^verbatim>\<open>    try:\<close>, \<^verbatim>\<open>        pass\<close>, \<^verbatim>\<open>    except* E:\<close>, \<^verbatim>\<open>        pass\<close>
\<close>

definition code_try_star :: string where
  "code_try_star = ''def g():'' @ [newline] @ ''    try:'' @ [newline] @ ''        pass'' @
     [newline] @ ''    except* E:'' @ [newline] @ ''        pass''"

definition tree_try_star :: node where
  "tree_try_star =
     Module [FunctionDef 1 5 ''g'' no_arguments
               [TryStar [pass_stmt] [ExceptHandler 4 (Some (Name ''E'' load)) [pass_stmt]] [] []]
               [] None []]"

text \<open>
  The file \<^verbatim>\<open>def f():\<close>, \<^verbatim>\<open>    pass\<close> analysed twice by one object: the object as the first
  call of \<^verbatim>\<open>analyze\<close> leaves it and the report of that call, then the same for a second call
  on that object.
\<close>

definition object_after_first_run :: analyzer where
  "object_after_first_run = run_analyses id (split_newline code_def_f) tree_def_f (init ''f.py'')"

definition report_of_first_run :: report where
  "report_of_first_run =
     report_of object_after_first_run (weighted_sum (self_scores object_after_first_run))"

definition object_after_second_run :: analyzer where
  "object_after_second_run =
     run_analyses id (split_newline code_def_f) tree_def_f object_after_first_run"

definition report_of_second_run :: report where
  "report_of_second_run =
     report_of object_after_second_run (weighted_sum (self_scores object_after_second_run))"

section \<open>The loops in closed form\<close>

lemma fold_append_critical:
  "fold (\<lambda>x. append_critical (mk x)) xs self =
     self\<lparr>self_issues := (self_issues self)\<lparr>critical := critical (self_issues self) @ map mk xs\<rparr>\<rparr>"
  by (induction xs arbitrary: self) (simp_all add: append_critical_def)

lemma fold_append_high:
  "fold (\<lambda>x. append_high (mk x)) xs self =
     self\<lparr>self_issues := (self_issues self)\<lparr>high := high (self_issues self) @ map mk xs\<rparr>\<rparr>"
  by (induction xs arbitrary: self) (simp_all add: append_high_def)

lemma fold_append_medium:
  "fold (\<lambda>x. append_medium (mk x)) xs self =
     self\<lparr>self_issues := (self_issues self)\<lparr>medium := medium (self_issues self) @ map mk xs\<rparr>\<rparr>"
  by (induction xs arbitrary: self) (simp_all add: append_medium_def)

lemma fold_append_low:
  "fold (\<lambda>x. append_low (mk x)) xs self =
     self\<lparr>self_issues := (self_issues self)\<lparr>low := low (self_issues self) @ map mk xs\<rparr>\<rparr>"
  by (induction xs arbitrary: self) (simp_all add: append_low_def)

lemma fold_penalty_step:
  fixes step :: "'a \<Rightarrow> analyzer \<times> real \<Rightarrow> analyzer \<times> real"
  assumes "\<And>x self score.
    step x (self, score) = (if P x then (app (mk x) self, score - c) else (self, score))"
  shows "fold step xs (self, score) =
    (fold (\<lambda>x. app (mk x)) (filter P xs) self, score - c * real (length (filter P xs)))"
proof (induction xs arbitrary: self score)
  case Nil
  then show ?case by simp
next
  case (Cons x xs)
  show ?case
  proof (cases "P x")
    case True
    then show ?thesis using Cons [of "app (mk x) self" "score - c"] assms [of x self score]
      by (simp add: algebra_simps)
  next
    case False
    then show ?thesis using Cons [of self score] assms [of x self score] by simp
  qed
qed

lemma sum_list_ones: "sum_list (map (\<lambda>x. 1 :: nat) xs) = length xs"
  by (induction xs) simp_all

lemma fold_count_line:
  "fold count_line lines m =
     m\<lparr>comment_lines := comment_lines m +
          length (filter (\<lambda>t. strip t \<noteq> [] \<and> startswith (strip t) ''#'') lines),
       blank_lines := blank_lines m + length (filter (\<lambda>t. strip t = []) lines)\<rparr>"
  by (induction lines arbitrary: m) (simp_all add: count_line_def Let_def)

lemma fold_count_node:
  "fold count_node ns m =
     m\<lparr>functions := functions m + length (filter is_FunctionDef ns),
       classes := classes m + length (filter is_ClassDef ns)\<rparr>"
proof (induction ns arbitrary: m)
  case Nil
  then show ?case by simp
next
  case (Cons n ns)
  have "is_FunctionDef n \<Longrightarrow> \<not> is_ClassDef n" by (cases n) simp_all
  then show ?case using Cons by (simp add: count_node_def)
qed

lemma analyze_metrics_closed:
  "analyze_metrics lines tree self =
     self\<lparr>self_metrics := (self_metrics self)
       \<lparr>lines_of_code := length lines,
        comment_lines := comment_lines (self_metrics self) +
          length (filter (\<lambda>t. strip t \<noteq> [] \<and> startswith (strip t) ''#'') lines),
        blank_lines := blank_lines (self_metrics self) +
          length (filter (\<lambda>t. strip t = []) lines),
        functions := functions (self_metrics self) + length (function_defs tree),
        classes := classes (self_metrics self) + length (class_defs tree)\<rparr>\<rparr>"
  by (simp add: analyze_metrics_def fold_count_line fold_count_node function_defs_def
      class_defs_def)

lemma fold_error_handling_step:
  "fold error_handling_step ns (self, score) =
     (self\<lparr>self_issues := (self_issues self)
        \<lparr>high := high (self_issues self) @
           map bare_except_issue
             (filter (\<lambda>n. is_ExceptHandler n \<and> handler_type n = None) ns)\<rparr>\<rparr>,
      score - 2 * real (length (filter (\<lambda>n. is_ExceptHandler n \<and> handler_type n = None) ns)))"
proof -
  have "fold error_handling_step ns (self, score) =
    (fold (\<lambda>n. append_high (bare_except_issue n))
       (filter (\<lambda>n. is_ExceptHandler n \<and> handler_type n = None) ns) self,
     score - 2 * real (length (filter (\<lambda>n. is_ExceptHandler n \<and> handler_type n = None) ns)))"
    by (rule fold_penalty_step) (simp add: error_handling_step_def bare_except_issue_def)
  then show ?thesis by (simp add: fold_append_high)
qed

lemma analyze_error_handling_closed:
  "analyze_error_handling tree self =
     self\<lparr>self_issues := (self_issues self)
       \<lparr>high := high (self_issues self) @ map bare_except_issue (bare_handlers tree),
        medium := medium (self_issues self) @
          (if try_blocks tree = [] \<and> functions (self_metrics self) > 0
           then [no_error_handling_issue] else [])\<rparr>,
       self_scores := (self_scores self)
       \<lparr>error_handling :=
          max 0 (10 - 2 * real (length (bare_handlers tree)) -
                 (if try_blocks tree = [] \<and> functions (self_metrics self) > 0
                  then 2 else 0))\<rparr>\<rparr>"
proof -
  have eq: "(sum_list (map (\<lambda>node. 1 :: nat) (filter is_Try (walk tree))) = 0) =
      (try_blocks tree = [])"
    by (auto simp add: try_blocks_def sum_list_ones filter_empty_conv)
  show ?thesis
    unfolding analyze_error_handling_def Let_def eq
    by (simp add: fold_error_handling_step bare_handlers_def no_error_handling_issue_def
        append_medium_def)
qed

lemma fold_performance_step:
  "fold performance_step ns (self, score) =
     (self\<lparr>self_issues := (self_issues self)
        \<lparr>low := low (self_issues self) @
           map list_comprehension_issue
             (filter (\<lambda>n. is_For n \<and> list_ex is_append_call (walk n)) ns)\<rparr>\<rparr>,
      score - 0.3 *
        real (length (filter (\<lambda>n. is_For n \<and> list_ex is_append_call (walk n)) ns)))"
proof -
  have "fold performance_step ns (self, score) =
    (fold (\<lambda>n. append_low (list_comprehension_issue n))
       (filter (\<lambda>n. is_For n \<and> list_ex is_append_call (walk n)) ns) self,
     score - 0.3 *
       real (length (filter (\<lambda>n. is_For n \<and> list_ex is_append_call (walk n)) ns)))"
    by (rule fold_penalty_step) (simp add: performance_step_def list_comprehension_issue_def)
  then show ?thesis by (simp add: fold_append_low)
qed

lemma analyze_performance_closed:
  "analyze_performance tree self =
     self\<lparr>self_issues := (self_issues self)
       \<lparr>low := low (self_issues self) @ map list_comprehension_issue (append_loops tree)\<rparr>,
       self_scores := (self_scores self)
       \<lparr>performance := max 0 (10 - 0.3 * real (length (append_loops tree)))\<rparr>\<rparr>"
  by (simp add: analyze_performance_def fold_performance_step append_loops_def)

lemma fold_secret_step:
  "fold (secret_step i txt) patterns (self, score) =
     (self\<lparr>self_issues := (self_issues self)
        \<lparr>critical := critical (self_issues self) @
           map (\<lambda>pattern. hardcoded_secret_issue i)
             (filter (\<lambda>pattern. re_search_secret pattern txt) patterns)\<rparr>\<rparr>,
      score - 3 * real (length (filter (\<lambda>pattern. re_search_secret pattern txt) patterns)))"
proof -
  have "fold (secret_step i txt) patterns (self, score) =
    (fold (\<lambda>pattern. append_critical (hardcoded_secret_issue i))
       (filter (\<lambda>pattern. re_search_secret pattern txt) patterns) self,
     score - 3 * real (length (filter (\<lambda>pattern. re_search_secret pattern txt) patterns)))"
    by (rule fold_penalty_step) (simp add: secret_step_def hardcoded_secret_issue_def)
  then show ?thesis by (simp add: fold_append_critical)
qed

lemma fold_lines_secret_step:
  "fold (\<lambda>(i, txt). fold (secret_step i txt) secret_patterns) numbered (self, score) =
     (self\<lparr>self_issues := (self_issues self)
        \<lparr>critical := critical (self_issues self) @ secret_issues numbered\<rparr>\<rparr>,
      score - 3 * real (length (secret_issues numbered)))"
proof (induction numbered arbitrary: self score)
  case Nil
  then show ?case by (simp add: secret_issues_def)
next
  case (Cons x numbered)
  obtain i t where x: "x = (i, t)" by (cases x)
  show ?case
    by (simp add: x fold_secret_step Cons secret_issues_def matching_patterns_def
        algebra_simps)
qed

lemma fold_dangerous_step:
  "fold dangerous_step ns (self, score) =
     (self\<lparr>self_issues := (self_issues self)
        \<lparr>critical := critical (self_issues self) @
           map dangerous_function_issue
             (filter (\<lambda>n. is_Call n \<and> is_Name (func n) \<and>
                           name_id (func n) \<in> set [''eval'', ''exec'']) ns)\<rparr>\<rparr>,
      score - 3 * real (length
             (filter (\<lambda>n. is_Call n \<and> is_Name (func n) \<and>
                           name_id (func n) \<in> set [''eval'', ''exec'']) ns)))"
proof -
  have "fold dangerous_step ns (self, score) =
    (fold (\<lambda>n. append_critical (dangerous_function_issue n))
       (filter (\<lambda>n. is_Call n \<and> is_Name (func n) \<and>
                     name_id (func n) \<in> set [''eval'', ''exec'']) ns) self,
     score - 3 * real (length
       (filter (\<lambda>n. is_Call n \<and> is_Name (func n) \<and>
                     name_id (func n) \<in> set [''eval'', ''exec'']) ns)))"
    by (rule fold_penalty_step) (simp add: dangerous_step_def dangerous_function_issue_def)
  then show ?thesis by (simp add: fold_append_critical)
qed

lemma analyze_security_closed:
  "analyze_security lines tree self =
     self\<lparr>self_issues := (self_issues self)
       \<lparr>critical := critical (self_issues self) @ secret_issues (List.enumerate 1 lines) @
          map dangerous_function_issue (dangerous_calls tree)\<rparr>,
       self_scores := (self_scores self)
       \<lparr>security :=
          max 0 (10 - 3 * real (length (secret_issues (List.enumerate 1 lines))) -
                 3 * real (length (dangerous_calls tree)))\<rparr>\<rparr>"
  by (simp add: analyze_security_def fold_lines_secret_step fold_dangerous_step
      dangerous_calls_def)

lemma fold_print_step:
  "fold print_step ns (self, score) =
     (self\<lparr>self_issues := (self_issues self)
        \<lparr>low := low (self_issues self) @
           map print_statement_issue
             (filter (\<lambda>n. is_Call n \<and> is_Name (func n) \<and> name_id (func n) = ''print'') ns)\<rparr>\<rparr>,
      score - 0.2 * real (length
        (filter (\<lambda>n. is_Call n \<and> is_Name (func n) \<and> name_id (func n) = ''print'') ns)))"
proof -
  have "fold print_step ns (self, score) =
    (fold (\<lambda>n. append_low (print_statement_issue n))
       (filter (\<lambda>n. is_Call n \<and> is_Name (func n) \<and> name_id (func n) = ''print'') ns) self,
     score - 0.2 * real (length
       (filter (\<lambda>n. is_Call n \<and> is_Name (func n) \<and> name_id (func n) = ''print'') ns)))"
    by (rule fold_penalty_step) (simp add: print_step_def print_statement_issue_def)
  then show ?thesis by (simp add: fold_append_low)
qed

lemma fold_naming_step:
  "fold naming_step ns (self, score) =
     (self\<lparr>self_issues := (self_issues self)
        \<lparr>low := low (self_issues self) @
           map naming_convention_issue
             (filter (\<lambda>n. is_FunctionDef n \<and> \<not> islower (name n) \<and> name n \<noteq> ''__init__'') ns)\<rparr>\<rparr>,
      score - 0.3 * real (length
        (filter (\<lambda>n. is_FunctionDef n \<and> \<not> islower (name n) \<and> name n \<noteq> ''__init__'') ns)))"
proof -
  have "fold naming_step ns (self, score) =
    (fold (\<lambda>n. append_low (naming_convention_issue n))
       (filter (\<lambda>n. is_FunctionDef n \<and> \<not> islower (name n) \<and> name n \<noteq> ''__init__'') ns) self,
     score - 0.3 * real (length
       (filter (\<lambda>n. is_FunctionDef n \<and> \<not> islower (name n) \<and> name n \<noteq> ''__init__'') ns)))"
    by (rule fold_penalty_step) (simp add: naming_step_def naming_convention_issue_def)
  then show ?thesis by (simp add: fold_append_low)
qed

lemma analyze_best_practices_closed:
  "analyze_best_practices tree self =
     self\<lparr>self_issues := (self_issues self)
       \<lparr>low := low (self_issues self) @ map print_statement_issue (print_calls tree) @
          map naming_convention_issue (badly_named tree)\<rparr>,
       self_scores := (self_scores self)
       \<lparr>best_practices :=
          max 0 (10 - 0.2 * real (length (print_calls tree)) -
                 0.3 * real (length (badly_named tree)))\<rparr>\<rparr>"
  by (simp add: analyze_best_practices_def fold_print_step fold_naming_step
      print_calls_def badly_named_def)

lemma fold_docs_step:
  "fold (docs_step cleandoc) ns (d, t) =
     (d + length (filter (has_docstring cleandoc) (filter is_FunctionDef ns)),
      t + length (filter is_FunctionDef ns))"
  by (induction ns arbitrary: d t) (simp_all add: docs_step_def)

lemma fold_hints_step:
  "fold hints_step ns h = h + length (filter has_hints (filter is_FunctionDef ns))"
  by (induction ns arbitrary: h) (simp_all add: hints_step_def)

lemma analyze_maintainability_closed:
  "analyze_maintainability cleandoc tree self =
     self\<lparr>self_issues := (self_issues self)
       \<lparr>medium := medium (self_issues self) @
          (if low_documentation cleandoc tree then [low_documentation_issue cleandoc tree]
           else []),
        low := low (self_issues self) @
          (if missing_type_hints tree then [missing_type_hints_issue tree] else [])\<rparr>,
       self_scores := (self_scores self)
       \<lparr>maintainability :=
          max 0 (10 - (if low_documentation cleandoc tree then 2 else 0) -
                 (if missing_type_hints tree then 1 else 0))\<rparr>\<rparr>"
proof -
  have total: "(0 < length (filter is_FunctionDef (walk tree))) = (function_defs tree \<noteq> [])"
    by (simp add: function_defs_def)
  have docs: "real (length (filter (has_docstring cleandoc) (filter is_FunctionDef (walk tree)))) /
      real (length (filter is_FunctionDef (walk tree))) * 100 = doc_coverage cleandoc tree"
    by (simp add: doc_coverage_def documented_def function_defs_def)
  have hints: "real (length (filter has_hints (filter is_FunctionDef (walk tree)))) /
      real (length (filter is_FunctionDef (walk tree))) * 100 = hint_coverage tree"
    by (simp add: hint_coverage_def hinted_def function_defs_def)
  have form: "analyze_maintainability cleandoc tree self =
     (let (self1, score1) =
            (if function_defs tree \<noteq> [] then
               (if doc_coverage cleandoc tree < 50 then
                  (append_medium (low_documentation_issue cleandoc tree) self, 10 - 2)
                else (self, 10))
             else (self, 10));
          (self2, score2) =
            (if function_defs tree \<noteq> [] then
               (if hint_coverage tree < 30 then
                  (append_low (missing_type_hints_issue tree) self1, score1 - 1)
                else (self1, score1))
             else (self1, score1))
      in self2\<lparr>self_scores := (self_scores self2)\<lparr>maintainability := max 0 score2\<rparr>\<rparr>)"
    unfolding analyze_maintainability_def fold_docs_step fold_hints_step prod.case Let_def
      add_0 total docs hints low_documentation_issue_def missing_type_hints_issue_def
    by simp
  show ?thesis
  proof (cases "low_documentation cleandoc tree")
    case True
    note ld = this
    show ?thesis
    proof (cases "missing_type_hints tree")
      case True
      with ld show ?thesis
        by (simp add: form low_documentation_def missing_type_hints_def append_medium_def
            append_low_def)
    next
      case False
      with ld show ?thesis
        by (simp add: form low_documentation_def missing_type_hints_def append_medium_def
            append_low_def)
    qed
  next
    case False
    note ld = this
    show ?thesis
    proof (cases "missing_type_hints tree")
      case True
      with ld show ?thesis
        by (auto simp add: form low_documentation_def missing_type_hints_def append_medium_def
            append_low_def)
    next
      case False
      with ld show ?thesis
        by (auto simp add: form low_documentation_def missing_type_hints_def append_medium_def
            append_low_def)
    qed
  qed
qed

lemma fold_structure_step:
  "fold structure_step ns (self, score, fl) =
     (self\<lparr>self_issues := (self_issues self)
        \<lparr>high := high (self_issues self) @
           map (long_function_issue ''100'' HIGH)
             (filter (\<lambda>n. function_length n > 100) (filter is_FunctionDef ns)),
         medium := medium (self_issues self) @
           map (long_function_issue ''50'' MEDIUM)
             (filter (\<lambda>n. \<not> function_length n > 100 \<and> function_length n > 50)
                (filter is_FunctionDef ns))\<rparr>\<rparr>,
      score - real (length (filter (\<lambda>n. function_length n > 100) (filter is_FunctionDef ns)))
        - 0.5 * real (length (filter (\<lambda>n. \<not> function_length n > 100 \<and> function_length n > 50)
                (filter is_FunctionDef ns))),
      fl @ map function_length (filter is_FunctionDef ns))"
proof (induction ns arbitrary: self score fl)
  case Nil
  then show ?case by simp
next
  case (Cons n ns)
  show ?case
  proof (cases "is_FunctionDef n")
    case False
    then show ?thesis using Cons [of self score fl] by (simp add: structure_step_def)
  next
    case True
    note fd = this
    show ?thesis
    proof (cases "function_length n > 100")
      case True
      with fd show ?thesis
        using Cons [of "append_high (long_function_issue ''100'' HIGH n) self" "score - 1"
            "fl @ [function_length n]"]
        by (simp add: structure_step_def function_length_def long_function_issue_def
            append_high_def Let_def algebra_simps)
    next
      case False
      note nv = this
      show ?thesis
      proof (cases "function_length n > 50")
        case True
        with fd nv show ?thesis
          using Cons [of "append_medium (long_function_issue ''50'' MEDIUM n) self"
              "score - 0.5" "fl @ [function_length n]"]
          by (simp add: structure_step_def function_length_def long_function_issue_def
              append_medium_def Let_def algebra_simps)
      next
        case False
        with fd nv show ?thesis
          using Cons [of self score "fl @ [function_length n]"]
          by (simp add: structure_step_def function_length_def Let_def)
      qed
    qed
  qed
qed

lemma analyze_structure_closed:
  "analyze_structure lines tree self =
     self\<lparr>self_issues := (self_issues self)
       \<lparr>high := high (self_issues self) @
          map (long_function_issue ''100'' HIGH) (very_long_functions tree),
        medium := medium (self_issues self) @
          map (long_function_issue ''50'' MEDIUM) (long_functions tree) @
          (if check_duplication lines then [code_duplication_issue] else [])\<rparr>,
       self_metrics := (self_metrics self)
       \<lparr>max_function_length :=
          (if function_defs tree \<noteq> [] then
             fold max (tl (function_lengths tree)) (hd (function_lengths tree))
           else max_function_length (self_metrics self)),
        avg_function_length :=
          (if function_defs tree \<noteq> [] then
             of_int (sum_list (function_lengths tree)) / of_nat (length (function_lengths tree))
           else avg_function_length (self_metrics self))\<rparr>,
       self_scores := (self_scores self)
       \<lparr>structure :=
          max 0 (10 - real (length (very_long_functions tree)) -
                 0.5 * real (length (long_functions tree)) -
                 (if check_duplication lines then 1 else 0))\<rparr>\<rparr>"
proof -
  have vl: "filter (\<lambda>n. function_length n > 100) (filter is_FunctionDef (walk tree)) =
      very_long_functions tree"
    by (simp add: very_long_functions_def function_defs_def)
  have lg: "filter (\<lambda>n. \<not> function_length n > 100 \<and> function_length n > 50)
      (filter is_FunctionDef (walk tree)) = long_functions tree"
    by (simp add: long_functions_def function_defs_def)
  have fl: "map function_length (filter is_FunctionDef (walk tree)) = function_lengths tree"
    by (simp add: function_lengths_def function_defs_def)
  have ne: "(function_lengths tree \<noteq> []) = (function_defs tree \<noteq> [])"
    by (simp add: function_lengths_def)
  have form: "analyze_structure lines tree self =
    (let self1 = self\<lparr>self_issues := (self_issues self)
            \<lparr>high := high (self_issues self) @
               map (long_function_issue ''100'' HIGH) (very_long_functions tree),
             medium := medium (self_issues self) @
               map (long_function_issue ''50'' MEDIUM) (long_functions tree)\<rparr>\<rparr>;
         score1 = 10 - real (length (very_long_functions tree)) -
                 0.5 * real (length (long_functions tree));
         self2 =
           (if function_defs tree \<noteq> [] then
              self1\<lparr>self_metrics := (self_metrics self1)
                \<lparr>max_function_length :=
                   fold max (tl (function_lengths tree)) (hd (function_lengths tree)),
                 avg_function_length :=
                   of_int (sum_list (function_lengths tree)) /
                   of_nat (length (function_lengths tree))\<rparr>\<rparr>
            else self1);
         (self3, score3) =
           (if check_duplication lines then
              (append_medium code_duplication_issue self2, score1 - 1)
            else (self2, score1))
     in self3\<lparr>self_scores := (self_scores self3)\<lparr>structure := max 0 score3\<rparr>\<rparr>)"
    unfolding analyze_structure_def fold_structure_step prod.case Let_def append_Nil
      vl lg fl ne code_duplication_issue_def
    by simp
  show ?thesis
  proof (cases "check_duplication lines")
    case True
    then show ?thesis by (simp add: form append_medium_def)
  next
    case False
    then show ?thesis by (simp add: form)
  qed
qed

lemma calculate_scores_closed:
  "calculate_scores self =
     self\<lparr>self_overall_score :=
       Some (structure (self_scores self) * 0.20 + error_handling (self_scores self) * 0.20 +
             performance (self_scores self) * 0.15 + security (self_scores self) * 0.15 +
             maintainability (self_scores self) * 0.15 +
             best_practices (self_scores self) * 0.15)\<rparr>"
  by (simp add: calculate_scores_def weights_def)

lemmas analyses_closed =
  analyze_metrics_closed analyze_structure_closed analyze_error_handling_closed
  analyze_performance_closed analyze_security_closed analyze_maintainability_closed
  analyze_best_practices_closed calculate_scores_closed

lemma run_analyses_issues:
  "self_issues (run_analyses cleandoc lines tree self) =
     \<lparr>critical = critical (self_issues self) @ secret_issues (List.enumerate 1 lines) @
        map dangerous_function_issue (dangerous_calls tree),
      high = high (self_issues self) @
        map (long_function_issue ''100'' HIGH) (very_long_functions tree) @
        map bare_except_issue (bare_handlers tree),
      medium = medium (self_issues self) @
        map (long_function_issue ''50'' MEDIUM) (long_functions tree) @
        (if check_duplication lines then [code_duplication_issue] else []) @
        (if try_blocks tree = [] \<and>
            functions (self_metrics self) + length (function_defs tree) > 0
         then [no_error_handling_issue] else []) @
        (if low_documentation cleandoc tree then [low_documentation_issue cleandoc tree]
         else []),
      low = low (self_issues self) @ map list_comprehension_issue (append_loops tree) @
        (if missing_type_hints tree then [missing_type_hints_issue tree] else []) @
        map print_statement_issue (print_calls tree) @
        map naming_convention_issue (badly_named tree)\<rparr>"
  by (simp add: run_analyses_def analyses_closed split del: if_split)

lemma run_analyses_scores:
  "self_scores (run_analyses cleandoc lines tree self) =
     \<lparr>structure =
        max 0 (10 - real (length (very_long_functions tree)) -
               0.5 * real (length (long_functions tree)) -
               (if check_duplication lines then 1 else 0)),
      error_handling =
        max 0 (10 - 2 * real (length (bare_handlers tree)) -
               (if try_blocks tree = [] \<and>
                   functions (self_metrics self) + length (function_defs tree) > 0
                then 2 else 0)),
      performance = max 0 (10 - 0.3 * real (length (append_loops tree))),
      security =
        max 0 (10 - 3 * real (length (secret_issues (List.enumerate 1 lines))) -
               3 * real (length (dangerous_calls tree))),
      maintainability =
        max 0 (10 - (if low_documentation cleandoc tree then 2 else 0) -
               (if missing_type_hints tree then 1 else 0)),
      best_practices =
        max 0 (10 - 0.2 * real (length (print_calls tree)) -
               0.3 * real (length (badly_named tree)))\<rparr>"
  by (simp add: run_analyses_def analyses_closed split del: if_split)

lemma run_analyses_metrics:
  "self_metrics (run_analyses cleandoc lines tree self) =
     \<lparr>lines_of_code = length lines,
      comment_lines = comment_lines (self_metrics self) +
        length (filter (\<lambda>t. strip t \<noteq> [] \<and> startswith (strip t) ''#'') lines),
      blank_lines = blank_lines (self_metrics self) +
        length (filter (\<lambda>t. strip t = []) lines),
      functions = functions (self_metrics self) + length (function_defs tree),
      classes = classes (self_metrics self) + length (class_defs tree),
      complexity = complexity (self_metrics self),
      max_function_length =
        (if function_defs tree \<noteq> [] then
           fold max (tl (function_lengths tree)) (hd (function_lengths tree))
         else max_function_length (self_metrics self)),
      avg_function_length =
        (if function_defs tree \<noteq> [] then
           of_int (sum_list (function_lengths tree)) / of_nat (length (function_lengths tree))
         else avg_function_length (self_metrics self))\<rparr>"
  by (simp add: run_analyses_def analyses_closed cong: if_cong split del: if_split)

lemma run_analyses_overall:
  "self_overall_score (run_analyses cleandoc lines tree self) =
     Some (structure (self_scores (run_analyses cleandoc lines tree self)) * 0.20 +
           error_handling (self_scores (run_analyses cleandoc lines tree self)) * 0.20 +
           performance (self_scores (run_analyses cleandoc lines tree self)) * 0.15 +
           security (self_scores (run_analyses cleandoc lines tree self)) * 0.15 +
           maintainability (self_scores (run_analyses cleandoc lines tree self)) * 0.15 +
           best_practices (self_scores (run_analyses cleandoc lines tree self)) * 0.15)"
  by (simp add: run_analyses_def calculate_scores_closed)

section \<open>The whole analysis\<close>

lemma generate_report_Some:
  "self_overall_score self = Some score \<Longrightarrow> generate_report self = Inr (report_of self score)"
  by (simp add: generate_report_def report_of_def)

lemma run_analyses_overall_weighted:
  "self_overall_score (run_analyses cleandoc lines tree self) =
     Some (weighted_sum (self_scores (run_analyses cleandoc lines tree self)))"
  by (simp add: run_analyses_overall weighted_sum_def)

lemma analyze_Inr:
  assumes "parse code = Inr tree"
  shows "analyze parse cleandoc code self =
    Inr (report_of (run_analyses cleandoc (split_newline code) tree self)
           (weighted_sum (self_scores (run_analyses cleandoc (split_newline code) tree self))),
         run_analyses cleandoc (split_newline code) tree self)"
  using assms
  by (simp add: analyze_def Let_def
      generate_report_Some [OF run_analyses_overall_weighted])

lemma analyze_Inl:
  assumes "parse code = Inl e" and "self_overall_score self = None"
  shows "analyze parse cleandoc code self = Inl (AttributeError ''overall_score'')"
  using assms by (simp add: analyze_def Let_def generate_report_def append_critical_def)

lemma analyze_InrD:
  assumes "parse code = Inr tree"
    and "analyze parse cleandoc code self = Inr (rep, self1)"
  shows "self1 = run_analyses cleandoc (split_newline code) tree self"
    and "rep = report_of self1 (weighted_sum (self_scores self1))"
  using assms by (auto simp add: analyze_Inr)

lemma report_of_simps:
  "file (report_of self score) = file_name self"
  "overall_score (report_of self score) = round1 score"
  "category_scores (report_of self score) = self_scores self"
  "metrics (report_of self score) = self_metrics self"
  "issues (report_of self score) = self_issues self"
  by (simp_all add: report_of_def)

lemma init_overall: "self_overall_score (init path) = None"
  by (simp add: init_def)

section \<open>The example files evaluated\<close>

lemma function_defs_def_f:
  "function_defs tree_def_f = [FunctionDef 1 2 ''f'' no_arguments [pass_stmt] [] None []]"
  by (simp add: function_defs_def walk_def tree_def_f_def no_arguments_def pass_stmt_def)

section \<open>The search for a secret pattern\<close>

text \<open>
  The search of the code for the pattern of a key word finds a match exactly in the lines
  that match in the sense of \<open>matches_secret_pattern\<close>.
\<close>

lemma distinct_upper: "distinct (map fst (zip ascii_uppercase ascii_lowercase))"
  by (simp add: ascii_uppercase_def ascii_lowercase_def)

lemma distinct_lower: "distinct (map snd (zip ascii_uppercase ascii_lowercase))"
  by (simp add: ascii_uppercase_def ascii_lowercase_def)

lemma lower_not_upper:
  "(c, d) \<in> set (zip ascii_uppercase ascii_lowercase) \<Longrightarrow>
   d \<notin> fst ` set (zip ascii_uppercase ascii_lowercase)"
  by (auto simp add: ascii_uppercase_def ascii_lowercase_def)

lemma lower_pair:
  assumes "(c, d) \<in> set (zip ascii_uppercase ascii_lowercase)"
  shows "lower c = d"
  using map_of_is_SomeI [OF distinct_upper assms] by (simp add: lower_def)

lemma lower_other:
  assumes "c \<notin> fst ` set (zip ascii_uppercase ascii_lowercase)"
  shows "lower c = c"
  using assms by (simp add: lower_def map_of_eq_None_iff [THEN iffD2])

lemma upper_unique:
  assumes "(c, d) \<in> set (zip ascii_uppercase ascii_lowercase)"
    and "(c', d) \<in> set (zip ascii_uppercase ascii_lowercase)"
  shows "c = c'"
  using inj_onD [of snd "set (zip ascii_uppercase ascii_lowercase)" "(c, d)" "(c', d)"]
    distinct_lower assms
  by (simp add: distinct_map)

lemma lower_unique:
  assumes "(c, d) \<in> set (zip ascii_uppercase ascii_lowercase)"
    and "(c, d') \<in> set (zip ascii_uppercase ascii_lowercase)"
  shows "d = d'"
  using inj_onD [of fst "set (zip ascii_uppercase ascii_lowercase)" "(c, d)" "(c, d')"]
    distinct_upper assms
  by (simp add: distinct_map)

lemma lower_eq_iff: "(lower c = lower k) = same_ignoring_case c k"
proof (cases "c \<in> fst ` set (zip ascii_uppercase ascii_lowercase)")
  case True
  then obtain d where cd: "(c, d) \<in> set (zip ascii_uppercase ascii_lowercase)" by auto
  show ?thesis
  proof (cases "k \<in> fst ` set (zip ascii_uppercase ascii_lowercase)")
    case True
    then obtain e where ke: "(k, e) \<in> set (zip ascii_uppercase ascii_lowercase)" by auto
    have "(c, k) \<notin> set (zip ascii_uppercase ascii_lowercase)"
      using lower_not_upper [of c k] True by blast
    moreover have "(k, c) \<notin> set (zip ascii_uppercase ascii_lowercase)"
      using lower_not_upper [of k c] \<open>c \<in> fst ` set (zip ascii_uppercase ascii_lowercase)\<close>
      by blast
    moreover have "(d = e) = (c = k)"
      using cd ke upper_unique lower_unique by blast
    ultimately show ?thesis
      by (simp add: same_ignoring_case_def lower_pair [OF cd] lower_pair [OF ke])
  next
    case False
    have "c \<noteq> k" using True False by blast
    moreover have "(k, c) \<notin> set (zip ascii_uppercase ascii_lowercase)"
      using False by force
    moreover have "(d = k) = ((c, k) \<in> set (zip ascii_uppercase ascii_lowercase))"
      using cd lower_unique by blast
    ultimately show ?thesis
      by (simp add: same_ignoring_case_def lower_pair [OF cd] lower_other [OF False])
  qed
next
  case False
  note nc = False
  show ?thesis
  proof (cases "k \<in> fst ` set (zip ascii_uppercase ascii_lowercase)")
    case True
    then obtain e where ke: "(k, e) \<in> set (zip ascii_uppercase ascii_lowercase)" by auto
    have "c \<noteq> k" using True nc by blast
    moreover have "(c, k) \<notin> set (zip ascii_uppercase ascii_lowercase)"
      using nc by force
    moreover have "(c = e) = ((k, c) \<in> set (zip ascii_uppercase ascii_lowercase))"
      using ke lower_unique by blast
    ultimately show ?thesis
      by (simp add: same_ignoring_case_def lower_pair [OF ke] lower_other [OF nc])
  next
    case False
    have "(c, k) \<notin> set (zip ascii_uppercase ascii_lowercase)"
      using nc by force
    moreover have "(k, c) \<notin> set (zip ascii_uppercase ascii_lowercase)"
      using False by force
    ultimately show ?thesis
      by (simp add: same_ignoring_case_def lower_other [OF nc] lower_other [OF False])
  qed
qed

lemma match_ignorecase_iff:
  "(match_ignorecase key s = Some r) =
     (\<exists>k. s = k @ r \<and> list_all2 same_ignoring_case k key)"
proof (induction key s rule: match_ignorecase.induct)
  case (1 s)
  then show ?case by auto
next
  case (2 k ks)
  then show ?case by (auto simp add: list_all2_Cons2)
next
  case (3 k ks c cs)
  show ?case
  proof (cases "lower c = lower k")
    case True
    then have s: "same_ignoring_case c k" by (simp add: lower_eq_iff)
    have "(\<exists>k'. c # cs = k' @ r \<and> list_all2 same_ignoring_case k' (k # ks)) =
          (\<exists>k''. cs = k'' @ r \<and> list_all2 same_ignoring_case k'' ks)"
      using s by (auto simp add: list_all2_Cons2 Cons_eq_append_conv)
    then show ?thesis using 3 True by simp
  next
    case False
    then have s: "\<not> same_ignoring_case c k" by (simp add: lower_eq_iff)
    then show ?thesis using False
      by (auto simp add: list_all2_Cons2 Cons_eq_append_conv)
  qed
qed

lemma dropWhile_isspace_iff:
  assumes "\<not> isspace y"
  shows "(dropWhile isspace s = y # r) = (\<exists>ws. s = ws @ y # r \<and> list_all isspace ws)"
proof
  assume d: "dropWhile isspace s = y # r"
  have "s = takeWhile isspace s @ dropWhile isspace s" by simp
  with d have "s = takeWhile isspace s @ y # r" by simp
  moreover have "list_all isspace (takeWhile isspace s)"
    by (simp add: list_all_iff) (meson set_takeWhileD)
  ultimately show "\<exists>ws. s = ws @ y # r \<and> list_all isspace ws" by blast
next
  assume "\<exists>ws. s = ws @ y # r \<and> list_all isspace ws"
  then obtain ws where "s = ws @ y # r" and "list_all isspace ws" by blast
  then show "dropWhile isspace s = y # r"
    using assms by (simp add: dropWhile_append2 list_all_iff)
qed

lemma quote_before_newline_iff:
  "list_ex is_quote (takeWhile (\<lambda>c. c \<noteq> newline) s) =
     (\<exists>inside q' after. s = inside @ [q'] @ after \<and> is_quote q' \<and> newline \<notin> set inside)"
proof
  assume "list_ex is_quote (takeWhile (\<lambda>c. c \<noteq> newline) s)"
  then obtain q' where q: "q' \<in> set (takeWhile (\<lambda>c. c \<noteq> newline) s)" and iq: "is_quote q'"
    by (auto simp add: list_ex_iff)
  from q obtain inside rest where
    t: "takeWhile (\<lambda>c. c \<noteq> newline) s = inside @ q' # rest"
    by (meson split_list)
  have "s = takeWhile (\<lambda>c. c \<noteq> newline) s @ dropWhile (\<lambda>c. c \<noteq> newline) s" by simp
  then have "s = inside @ [q'] @ (rest @ dropWhile (\<lambda>c. c \<noteq> newline) s)"
    using t by simp
  moreover have "newline \<notin> set inside"
  proof
    assume "newline \<in> set inside"
    then have "newline \<in> set (takeWhile (\<lambda>c. c \<noteq> newline) s)" using t by simp
    then show False using set_takeWhileD by fastforce
  qed
  ultimately show "\<exists>inside q' after. s = inside @ [q'] @ after \<and> is_quote q' \<and>
      newline \<notin> set inside"
    using iq by blast
next
  assume "\<exists>inside q' after. s = inside @ [q'] @ after \<and> is_quote q' \<and> newline \<notin> set inside"
  then obtain inside q' after where s: "s = inside @ [q'] @ after" and iq: "is_quote q'"
    and n: "newline \<notin> set inside" by blast
  have q: "q' \<noteq> newline" using iq by (auto simp add: is_quote_def newline_def)
  have "x \<noteq> newline" if "x \<in> set inside" for x using n that by blast
  then have "takeWhile (\<lambda>c. c \<noteq> newline) s =
      inside @ q' # takeWhile (\<lambda>c. c \<noteq> newline) after"
    using q by (simp add: s takeWhile_append2)
  then show "list_ex is_quote (takeWhile (\<lambda>c. c \<noteq> newline) s)"
    using iq by (simp add: list_ex_iff)
qed

lemma set_suffixes_of: "set (suffixes_of s) = {r. \<exists>before. s = before @ r}"
proof (induction s)
  case Nil
  then show ?case by auto
next
  case (Cons c cs)
  show ?case by (auto simp add: Cons Cons_eq_append_conv)
qed

lemma not_isspace_equals: "\<not> isspace (CHR ''='')"
  by (simp add: isspace_def)

lemma not_isspace_quote: "is_quote q \<Longrightarrow> \<not> isspace q"
  by (auto simp add: isspace_def is_quote_def)

lemma match_secret_here_iff:
  "match_secret_here key s =
     (\<exists>k ws1 ws2 q inside q' after.
        s = k @ ws1 @ ''='' @ ws2 @ [q] @ inside @ [q'] @ after \<and>
        list_all2 same_ignoring_case k key \<and>
        list_all isspace ws1 \<and> list_all isspace ws2 \<and>
        is_quote q \<and> is_quote q' \<and> newline \<notin> set inside)"
proof
  assume m: "match_secret_here key s"
  then obtain r1 where r1: "match_ignorecase key s = Some r1"
    by (auto simp add: match_secret_here_def split: option.splits)
  from m r1 obtain r2 where r2: "dropWhile isspace r1 = CHR ''='' # r2"
    by (auto simp add: match_secret_here_def split: list.splits if_splits)
  from m r1 r2 obtain q r3 where r3: "dropWhile isspace r2 = q # r3" and q: "is_quote q"
    and l: "list_ex is_quote (takeWhile (\<lambda>c. c \<noteq> newline) r3)"
    by (auto simp add: match_secret_here_def split: list.splits if_splits)
  from r1 obtain k where k: "s = k @ r1" "list_all2 same_ignoring_case k key"
    by (auto simp add: match_ignorecase_iff)
  from r2 obtain ws1 where w1: "r1 = ws1 @ CHR ''='' # r2" "list_all isspace ws1"
    by (auto simp add: dropWhile_isspace_iff [OF not_isspace_equals])
  from r3 q obtain ws2 where w2: "r2 = ws2 @ q # r3" "list_all isspace ws2"
    by (auto simp add: dropWhile_isspace_iff [OF not_isspace_quote])
  from l obtain inside q' after where
    i: "r3 = inside @ [q'] @ after" "is_quote q'" "newline \<notin> set inside"
    by (auto simp add: quote_before_newline_iff)
  have "s = k @ ws1 @ ''='' @ ws2 @ [q] @ inside @ [q'] @ after"
    by (simp add: k w1 w2 i)
  with k w1 w2 q i show "\<exists>k ws1 ws2 q inside q' after.
        s = k @ ws1 @ ''='' @ ws2 @ [q] @ inside @ [q'] @ after \<and>
        list_all2 same_ignoring_case k key \<and>
        list_all isspace ws1 \<and> list_all isspace ws2 \<and>
        is_quote q \<and> is_quote q' \<and> newline \<notin> set inside"
    by blast
next
  assume "\<exists>k ws1 ws2 q inside q' after.
        s = k @ ws1 @ ''='' @ ws2 @ [q] @ inside @ [q'] @ after \<and>
        list_all2 same_ignoring_case k key \<and>
        list_all isspace ws1 \<and> list_all isspace ws2 \<and>
        is_quote q \<and> is_quote q' \<and> newline \<notin> set inside"
  then obtain k ws1 ws2 q inside q' after where
    s: "s = k @ ws1 @ ''='' @ ws2 @ [q] @ inside @ [q'] @ after" and
    k: "list_all2 same_ignoring_case k key" and
    w: "list_all isspace ws1" "list_all isspace ws2" and
    q: "is_quote q" "is_quote q'" "newline \<notin> set inside"
    by blast
  have 1: "match_ignorecase key s = Some (ws1 @ CHR ''='' # ws2 @ q # inside @ q' # after)"
    using k by (auto simp add: match_ignorecase_iff s)
  have 2: "dropWhile isspace (ws1 @ CHR ''='' # ws2 @ q # inside @ q' # after) =
      CHR ''='' # ws2 @ q # inside @ q' # after"
    using w by (auto simp add: dropWhile_isspace_iff [OF not_isspace_equals])
  have 3: "dropWhile isspace (ws2 @ q # inside @ q' # after) = q # inside @ q' # after"
    using w q by (auto simp add: dropWhile_isspace_iff [OF not_isspace_quote])
  have 4: "list_ex is_quote (takeWhile (\<lambda>c. c \<noteq> newline) (inside @ q' # after))"
    using q by (auto simp add: quote_before_newline_iff)
  show "match_secret_here key s"
    by (simp add: match_secret_here_def 1 2 3 4 q)
qed

lemma re_search_secret_iff: "re_search_secret key txt = matches_secret_pattern key txt"
proof -
  have "re_search_secret key txt = (\<exists>before r. txt = before @ r \<and> match_secret_here key r)"
    by (auto simp add: re_search_secret_def list_ex_iff set_suffixes_of)
  also have "\<dots> = matches_secret_pattern key txt"
    unfolding matches_secret_pattern_def match_secret_here_iff by blast
  finally show ?thesis .
qed

section \<open>The claims\<close>

text \<open>
  C1. The claim: for a source text that fails to parse, \<^verbatim>\<open>analyze\<close> returns a report with
  the one CRITICAL issue \<^verbatim>\<open>Syntax Error\<close>, zero metrics and zero category scores, and
  does not raise. The code records the issue and calls \<^verbatim>\<open>generate_report\<close>, which reads
  the attribute \<^verbatim>\<open>overall_score\<close>; only \<^verbatim>\<open>_calculate_scores\<close> assigns that attribute, and
  it has not run. So the call raises \<^verbatim>\<open>AttributeError\<close> and returns no report: for the text
  \<^verbatim>\<open>def f(:\<close>, which the parser rejects at line 1, the result is the exception. The lemma
  \<open>analyze_Inl\<close> says the same of every text that the parser rejects.
\<close>

theorem analyze_raises_on_syntax_error:
  "analyze (\<lambda>c. Inl (SyntaxError (Some 1) ''invalid syntax (<unknown>, line 1)'')) cleandoc
     ''def f(:'' (init ''bad.py'') = Inl (AttributeError ''overall_score'')"
  by (simp add: analyze_Inl init_overall)

text \<open>
  C10. The metrics of every report that \<^verbatim>\<open>analyze\<close> returns for a new object have the field
  \<^verbatim>\<open>complexity\<close>, and its value is 0: \<^verbatim>\<open>__init__\<close> sets it to 0 and no analysis assigns it.
\<close>

theorem complexity_always_zero:
  assumes "analyze parse cleandoc code (init path) = Inr (rep, self1)"
  shows "complexity (metrics rep) = 0"
proof (cases "parse code")
  case (Inl e)
  with assms show ?thesis by (simp add: analyze_Inl init_overall)
next
  case (Inr tree)
  with assms have
    "metrics rep = self_metrics (run_analyses cleandoc (split_newline code) tree (init path))"
    by (auto simp add: analyze_Inr report_of_def)
  then show ?thesis by (simp add: run_analyses_metrics init_def)
qed

theorem complexity_always_zero_witness:
  "\<exists>rep self1. analyze (\<lambda>c. Inr tree_def_f) id code_def_f (init ''f.py'') = Inr (rep, self1) \<and>
     functions (metrics rep) = 1 \<and> complexity (metrics rep) = 0"
proof -
  obtain rep self1 where
    a: "analyze (\<lambda>c. Inr tree_def_f) id code_def_f (init ''f.py'') = Inr (rep, self1)"
    by (simp add: analyze_Inr)
  have "metrics rep =
      self_metrics (run_analyses id (split_newline code_def_f) tree_def_f (init ''f.py''))"
    using analyze_InrD [OF _ a, of tree_def_f] by (simp add: report_of_simps)
  then have "functions (metrics rep) = 1"
    by (simp add: run_analyses_metrics function_defs_def_f init_def)
  with a complexity_always_zero [OF a] show ?thesis by blast
qed

lemma round_half_even_bounds:
  assumes "0 \<le> x" and "x \<le> 100"
  shows "0 \<le> round_half_even x \<and> round_half_even x \<le> 100"
proof -
  have f0: "0 \<le> \<lfloor>x\<rfloor>" using assms(1) by simp
  have f100: "\<lfloor>x\<rfloor> \<le> 100" using assms(2) by (simp add: floor_le_iff)
  show ?thesis
  proof (cases "\<lfloor>x\<rfloor> = 100")
    case True
    then have "100 \<le> x" using of_int_floor_le [of x] by simp
    with assms(2) have "x = 100" by simp
    then show ?thesis by (simp add: round_half_even_def)
  next
    case False
    with f100 have "\<lfloor>x\<rfloor> \<le> 99" by linarith
    with f0 show ?thesis by (simp add: round_half_even_def Let_def)
  qed
qed

lemma round1_bounds:
  assumes "0 \<le> x" and "x \<le> 10"
  shows "0 \<le> round1 x \<and> round1 x \<le> 10"
  using round_half_even_bounds [of "x * 10"] assms by (simp add: round1_def)

lemma run_analyses_scores_bounded:
  fixes sc :: scores_rec
  assumes "sc = self_scores (run_analyses cleandoc lines tree self)"
  shows "0 \<le> structure sc" "structure sc \<le> 10"
    "0 \<le> error_handling sc" "error_handling sc \<le> 10"
    "0 \<le> performance sc" "performance sc \<le> 10"
    "0 \<le> security sc" "security sc \<le> 10"
    "0 \<le> maintainability sc" "maintainability sc \<le> 10"
    "0 \<le> best_practices sc" "best_practices sc \<le> 10"
  by (simp_all add: assms run_analyses_scores)

lemma weighted_sum_bounded:
  assumes "0 \<le> structure sc" "structure sc \<le> 10"
    "0 \<le> error_handling sc" "error_handling sc \<le> 10"
    "0 \<le> performance sc" "performance sc \<le> 10"
    "0 \<le> security sc" "security sc \<le> 10"
    "0 \<le> maintainability sc" "maintainability sc \<le> 10"
    "0 \<le> best_practices sc" "best_practices sc \<le> 10"
  shows "0 \<le> weighted_sum sc" "weighted_sum sc \<le> 10"
  using assms by (simp_all add: weighted_sum_def)

text \<open>
  C3. For a source that parses, \<^verbatim>\<open>_calculate_scores\<close> assigns to \<^verbatim>\<open>overall_score\<close> the sum
  0.20 structure + 0.20 error handling + 0.15 performance + 0.15 security +
  0.15 maintainability + 0.15 best practices of the category scores; every category score
  lies between 0 and 10, and so do the overall score and its rounding to one decimal, which
  is the overall score of the report. This holds for every state of the object that
  \<^verbatim>\<open>analyze\<close> is called on.
\<close>

theorem overall_score_weighted_and_bounded:
  assumes "parse code = Inr tree"
  shows "\<exists>rep self1. analyze parse cleandoc code self = Inr (rep, self1) \<and>
    self_overall_score self1 =
      Some (0.20 * structure (category_scores rep) + 0.20 * error_handling (category_scores rep) +
            0.15 * performance (category_scores rep) + 0.15 * security (category_scores rep) +
            0.15 * maintainability (category_scores rep) +
            0.15 * best_practices (category_scores rep)) \<and>
    overall_score rep = round1 (weighted_sum (category_scores rep)) \<and>
    0 \<le> weighted_sum (category_scores rep) \<and> weighted_sum (category_scores rep) \<le> 10 \<and>
    0 \<le> overall_score rep \<and> overall_score rep \<le> 10 \<and>
    0 \<le> structure (category_scores rep) \<and> structure (category_scores rep) \<le> 10 \<and>
    0 \<le> error_handling (category_scores rep) \<and> error_handling (category_scores rep) \<le> 10 \<and>
    0 \<le> performance (category_scores rep) \<and> performance (category_scores rep) \<le> 10 \<and>
    0 \<le> security (category_scores rep) \<and> security (category_scores rep) \<le> 10 \<and>
    0 \<le> maintainability (category_scores rep) \<and> maintainability (category_scores rep) \<le> 10 \<and>
    0 \<le> best_practices (category_scores rep) \<and> best_practices (category_scores rep) \<le> 10"
proof -
  define self1 where "self1 = run_analyses cleandoc (split_newline code) tree self"
  define rep where "rep = report_of self1 (weighted_sum (self_scores self1))"
  have a: "analyze parse cleandoc code self = Inr (rep, self1)"
    by (simp add: analyze_Inr [of parse code tree, OF assms] rep_def self1_def)
  have cs: "category_scores rep = self_scores self1"
    and os: "overall_score rep = round1 (weighted_sum (self_scores self1))"
    by (simp_all add: rep_def report_of_simps)
  have ov: "self_overall_score self1 = Some (weighted_sum (self_scores self1))"
    by (simp add: self1_def run_analyses_overall_weighted)
  note b = run_analyses_scores_bounded [OF self1_def [THEN arg_cong [of _ _ self_scores]]]
  note w = weighted_sum_bounded [OF b]
  note r = round1_bounds [OF w]
  from a ov os b w r show ?thesis
    by (intro exI [of _ rep] exI [of _ self1]) (simp add: weighted_sum_def cs)
qed

theorem overall_score_weighted_and_bounded_witness:
  "\<exists>rep self1. analyze (\<lambda>c. Inr tree_def_f) id code_def_f (init ''f.py'') = Inr (rep, self1) \<and>
     self_overall_score self1 = Some (weighted_sum (category_scores rep)) \<and>
     0 \<le> overall_score rep \<and> overall_score rep \<le> 10"
proof -
  have p: "(\<lambda>c. Inr tree_def_f) code_def_f = Inr tree_def_f" by simp
  from overall_score_weighted_and_bounded [where parse = "\<lambda>c. Inr tree_def_f"
      and code = code_def_f and tree = tree_def_f and cleandoc = id and self = "init ''f.py''",
      OF p]
  obtain rep self1 where
    "analyze (\<lambda>c. Inr tree_def_f) id code_def_f (init ''f.py'') = Inr (rep, self1)"
    "self_overall_score self1 =
      Some (0.20 * structure (category_scores rep) + 0.20 * error_handling (category_scores rep) +
            0.15 * performance (category_scores rep) + 0.15 * security (category_scores rep) +
            0.15 * maintainability (category_scores rep) +
            0.15 * best_practices (category_scores rep))"
    "0 \<le> overall_score rep" "overall_score rep \<le> 10"
    by blast
  then show ?thesis
    by (intro exI [of _ rep] exI [of _ self1]) (simp add: weighted_sum_def)
qed

lemma function_defs_bare:
  "function_defs tree_bare =
     [FunctionDef 1 5 ''g'' no_arguments
        [Try [pass_stmt] [ExceptHandler 4 None [pass_stmt]] [] []] [] None []]"
  by (simp add: function_defs_def walk_def tree_bare_def no_arguments_def pass_stmt_def)

lemma bare_handlers_bare: "bare_handlers tree_bare = [ExceptHandler 4 None [pass_stmt]]"
  by (simp add: bare_handlers_def walk_def tree_bare_def no_arguments_def pass_stmt_def)

lemma try_blocks_bare:
  "try_blocks tree_bare = [Try [pass_stmt] [ExceptHandler 4 None [pass_stmt]] [] []]"
  by (simp add: try_blocks_def walk_def tree_bare_def no_arguments_def pass_stmt_def)

lemma walk_async:
  "walk tree_async =
     [Module [AsyncFunctionDef 1 2 ''Fetch'' (Arguments [] [] None [] [] None []) [Other []]
                [] None []],
      AsyncFunctionDef 1 2 ''Fetch'' (Arguments [] [] None [] [] None []) [Other []] [] None [],
      ArgumentsNode (Arguments [] [] None [] [] None []), Other []]"
  by (simp add: walk_def tree_async_def no_arguments_def pass_stmt_def)

lemma filter_kind_map:
  assumes "\<And>x. issue (mk x) = k'"
  shows "filter (\<lambda>f. issue f = k) (map mk xs) = (if k' = k then map mk xs else [])"
  by (induction xs) (simp_all add: assms)

lemma filter_kinds_map:
  assumes "\<And>x. issue (mk x) = k'"
  shows "filter (\<lambda>f. issue f \<in> set ks) (map mk xs) = (if k' \<in> set ks then map mk xs else [])"
  by (induction xs) (simp_all add: assms)

lemma issue_kinds:
  "issue (long_function_issue limit sev n) = ''Long Function''"
  "issue (bare_except_issue n) = ''Bare Except Clause''"
  "issue (list_comprehension_issue n) = ''List Comprehension Opportunity''"
  "issue (hardcoded_secret_issue i) = ''Hardcoded Secret''"
  "issue (dangerous_function_issue n) = ''Dangerous Function''"
  "issue (print_statement_issue n) = ''Print Statement''"
  "issue (naming_convention_issue n) = ''Naming Convention''"
  "issue code_duplication_issue = ''Code Duplication''"
  "issue no_error_handling_issue = ''No Error Handling''"
  "issue (low_documentation_issue cleandoc tree) = ''Low Documentation''"
  "issue (missing_type_hints_issue tree) = ''Missing Type Hints''"
  by (simp_all add: long_function_issue_def bare_except_issue_def list_comprehension_issue_def
      hardcoded_secret_issue_def dangerous_function_issue_def print_statement_issue_def
      naming_convention_issue_def code_duplication_issue_def no_error_handling_issue_def
      low_documentation_issue_def missing_type_hints_issue_def)

lemma secret_issues_map:
  "secret_issues numbered =
     map hardcoded_secret_issue
       (concat (map (\<lambda>(i, t). replicate (length (matching_patterns t)) i) numbered))"
  by (induction numbered) (auto simp add: secret_issues_def map_replicate_const)

lemmas filter_kind =
  filter_kind_map [of "long_function_issue limit sev" "''Long Function''", OF issue_kinds(1)]
  filter_kind_map [of bare_except_issue, OF issue_kinds(2)]
  filter_kind_map [of list_comprehension_issue, OF issue_kinds(3)]
  filter_kind_map [of hardcoded_secret_issue, OF issue_kinds(4)]
  filter_kind_map [of dangerous_function_issue, OF issue_kinds(5)]
  filter_kind_map [of print_statement_issue, OF issue_kinds(6)]
  filter_kind_map [of naming_convention_issue, OF issue_kinds(7)]
  for limit sev

lemmas filter_kinds =
  filter_kinds_map [of "long_function_issue limit sev" "''Long Function''", OF issue_kinds(1)]
  filter_kinds_map [of bare_except_issue, OF issue_kinds(2)]
  filter_kinds_map [of list_comprehension_issue, OF issue_kinds(3)]
  filter_kinds_map [of hardcoded_secret_issue, OF issue_kinds(4)]
  filter_kinds_map [of dangerous_function_issue, OF issue_kinds(5)]
  filter_kinds_map [of print_statement_issue, OF issue_kinds(6)]
  filter_kinds_map [of naming_convention_issue, OF issue_kinds(7)]
  for limit sev

lemma try_statements_no_star:
  assumes "filter is_TryStar (walk tree) = []"
  shows "try_statements tree = try_blocks tree"
proof -
  have "\<not> is_TryStar n" if "n \<in> set (walk tree)" for n
    using assms that by (simp add: filter_empty_conv)
  then show ?thesis
    by (auto simp add: try_statements_def try_blocks_def intro: filter_cong)
qed

text \<open>
  C6. The claim: 2 is taken off (and \<^verbatim>\<open>No Error Handling\<close> recorded) if the file defines at
  least one function and contains no try block. The file \<^verbatim>\<open>async def Fetch():\<close>, \<^verbatim>\<open>    pass\<close>
  defines a function and contains no try block; its report has an error handling score of
  10 and no issue at all. The guard of the code reads the functions metric, and that counts
  the functions defined with \<^verbatim>\<open>def\<close> only (C9).
\<close>

theorem async_function_without_try_not_penalised:
  "AsyncFunctionDef 1 2 ''Fetch'' no_arguments [pass_stmt] [] None [] \<in> set (walk tree_async) \<and>
   try_statements tree_async = [] \<and>
   map_sum id fst (analyze (parses_to tree_async) id code_async (init ''fetch.py'')) =
     Inr \<lparr>file = ''fetch.py'', overall_score = 10,
          category_scores = \<lparr>structure = 10, error_handling = 10, performance = 10,
            security = 10, maintainability = 10, best_practices = 10\<rparr>,
          metrics = \<lparr>lines_of_code = 2, comment_lines = 0, blank_lines = 0, functions = 0,
            classes = 0, complexity = 0, max_function_length = 0, avg_function_length = 0\<rparr>,
          issues = \<lparr>critical = [], high = [], medium = [], low = []\<rparr>,
          total_issues = 0\<rparr>"
  by code_simp

text \<open>
  C6, amended. For a source that parses and has no \<^verbatim>\<open>try\<close> statement with \<^verbatim>\<open>except*\<close>
  clauses, analysed by a new object: the error handling score is 10, minus 2 for every
  exception handler without a type, minus 2 if the file has no \<^verbatim>\<open>try\<close> statement and the
  functions metric is positive, and not below 0; the functions metric is the number of
  function definitions with \<^verbatim>\<open>def\<close> (\<^verbatim>\<open>FunctionDef\<close> nodes; an \<^verbatim>\<open>async def\<close> is not counted).
  Each such handler has one HIGH issue \<^verbatim>\<open>Bare Except Clause\<close> at its line, whatever other
  issues there are; the MEDIUM issue \<^verbatim>\<open>No Error Handling\<close> at line 0 is recorded once under
  that condition and not otherwise, so never for a file with no function. The witnesses are
  the function with a bare handler (score 8, one HIGH issue at line 4, no MEDIUM issue
  \<^verbatim>\<open>No Error Handling\<close>) and the function without any \<^verbatim>\<open>try\<close> statement (score 8, the MEDIUM
  issue).
\<close>

theorem error_handling_score:
  assumes "parse code = Inr tree"
    and "filter is_TryStar (walk tree) = []"
  shows "\<exists>rep self1. analyze parse cleandoc code (init path) = Inr (rep, self1) \<and>
    functions (metrics rep) = length (function_defs tree) \<and>
    error_handling (category_scores rep) =
      max 0 (10 - 2 * real (length (bare_handlers tree)) -
             (if try_statements tree = [] \<and> functions (metrics rep) > 0 then 2 else 0)) \<and>
    filter (\<lambda>f. issue f = ''Bare Except Clause'') (high (issues rep)) =
      map (\<lambda>n. \<lparr>line = Some (lineno n), issue = ''Bare Except Clause'',
                 description = ''Using bare except: catches all exceptions including system exits'',
                 severity = HIGH\<rparr>) (bare_handlers tree) \<and>
    filter (\<lambda>f. issue f = ''No Error Handling'') (medium (issues rep)) =
      (if try_statements tree = [] \<and> functions (metrics rep) > 0
       then [\<lparr>line = Some 0, issue = ''No Error Handling'',
               description = ''No try/except blocks found'', severity = MEDIUM\<rparr>]
       else []) \<and>
    filter (\<lambda>f. issue f = ''Bare Except Clause'')
      (critical (issues rep) @ medium (issues rep) @ low (issues rep)) = [] \<and>
    filter (\<lambda>f. issue f = ''No Error Handling'')
      (critical (issues rep) @ high (issues rep) @ low (issues rep)) = []"
proof -
  define self1 where "self1 = run_analyses cleandoc (split_newline code) tree (init path)"
  define rep where "rep = report_of self1 (weighted_sum (self_scores self1))"
  note ts = try_statements_no_star [OF assms(2)]
  have a: "analyze parse cleandoc code (init path) = Inr (rep, self1)"
    by (simp add: analyze_Inr [of parse code tree, OF assms(1)] rep_def self1_def)
  have m: "functions (metrics rep) = length (function_defs tree)"
    by (simp add: rep_def self1_def report_of_simps run_analyses_metrics init_def)
  have s: "error_handling (category_scores rep) =
      max 0 (10 - 2 * real (length (bare_handlers tree)) -
             (if try_statements tree = [] \<and> length (function_defs tree) > 0 then 2 else 0))"
    by (simp add: rep_def self1_def report_of_simps run_analyses_scores init_def ts)
  have i: "issues rep = self_issues self1"
    by (simp add: rep_def report_of_simps)
  have h: "filter (\<lambda>f. issue f = ''Bare Except Clause'') (high (issues rep)) =
      map bare_except_issue (bare_handlers tree)"
    by (simp add: i self1_def run_analyses_issues init_def filter_kind)
  have md: "filter (\<lambda>f. issue f = ''No Error Handling'') (medium (issues rep)) =
      (if try_statements tree = [] \<and> length (function_defs tree) > 0
       then [no_error_handling_issue] else [])"
    by (simp add: i self1_def run_analyses_issues init_def filter_kind issue_kinds ts)
  have o1: "filter (\<lambda>f. issue f = ''Bare Except Clause'')
      (critical (issues rep) @ medium (issues rep) @ low (issues rep)) = []"
    by (simp add: i self1_def run_analyses_issues init_def filter_kind issue_kinds
        secret_issues_map)
  have o2: "filter (\<lambda>f. issue f = ''No Error Handling'')
      (critical (issues rep) @ high (issues rep) @ low (issues rep)) = []"
    by (simp add: i self1_def run_analyses_issues init_def filter_kind issue_kinds
        secret_issues_map)
  have b: "bare_except_issue =
      (\<lambda>n. \<lparr>line = Some (lineno n), issue = ''Bare Except Clause'',
             description = ''Using bare except: catches all exceptions including system exits'',
             severity = HIGH\<rparr>)"
    by (rule ext) (simp add: bare_except_issue_def)
  from a m s h md o1 o2 show ?thesis
    unfolding b no_error_handling_issue_def
    by (intro exI [of _ rep] exI [of _ self1]) (simp del: filter_append)
qed

theorem error_handling_score_witness:
  "(\<exists>rep self1. analyze (\<lambda>c. Inr tree_bare) id code_bare (init ''g.py'') = Inr (rep, self1) \<and>
      functions (metrics rep) = 1 \<and> error_handling (category_scores rep) = 8 \<and>
      filter (\<lambda>f. issue f = ''Bare Except Clause'') (high (issues rep)) =
        [\<lparr>line = Some 4, issue = ''Bare Except Clause'',
          description = ''Using bare except: catches all exceptions including system exits'',
          severity = HIGH\<rparr>] \<and>
      filter (\<lambda>f. issue f = ''No Error Handling'') (medium (issues rep)) = []) \<and>
   (\<exists>rep self1. analyze (parses_to tree_def_f) id code_def_f (init ''f.py'') = Inr (rep, self1) \<and>
      functions (metrics rep) = 1 \<and> error_handling (category_scores rep) = 8 \<and>
      filter (\<lambda>f. issue f = ''Bare Except Clause'') (high (issues rep)) = [] \<and>
      filter (\<lambda>f. issue f = ''No Error Handling'') (medium (issues rep)) =
        [\<lparr>line = Some 0, issue = ''No Error Handling'',
          description = ''No try/except blocks found'', severity = MEDIUM\<rparr>])"
proof -
  have p: "(\<lambda>c. Inr tree_bare) code_bare = Inr tree_bare" by simp
  have ns: "filter is_TryStar (walk tree_bare) = []" by code_simp
  have ts: "try_statements tree_bare =
      [Try [pass_stmt] [ExceptHandler 4 None [pass_stmt]] [] []]"
    by (simp add: try_statements_no_star [OF ns] try_blocks_bare)
  from error_handling_score [where parse = "\<lambda>c. Inr tree_bare" and code = code_bare
      and tree = tree_bare and cleandoc = id and path = "''g.py''", OF p ns]
  obtain rep self1 where
    a: "analyze (\<lambda>c. Inr tree_bare) id code_bare (init ''g.py'') = Inr (rep, self1)" and
    f: "functions (metrics rep) = length (function_defs tree_bare)" and
    s: "error_handling (category_scores rep) =
      max 0 (10 - 2 * real (length (bare_handlers tree_bare)) -
             (if try_statements tree_bare = [] \<and> functions (metrics rep) > 0 then 2 else 0))" and
    h: "filter (\<lambda>f. issue f = ''Bare Except Clause'') (high (issues rep)) =
      map (\<lambda>n. \<lparr>line = Some (lineno n), issue = ''Bare Except Clause'',
                 description = ''Using bare except: catches all exceptions including system exits'',
                 severity = HIGH\<rparr>) (bare_handlers tree_bare)" and
    m: "filter (\<lambda>f. issue f = ''No Error Handling'') (medium (issues rep)) =
      (if try_statements tree_bare = [] \<and> functions (metrics rep) > 0
       then [\<lparr>line = Some 0, issue = ''No Error Handling'',
               description = ''No try/except blocks found'', severity = MEDIUM\<rparr>]
       else [])"
    by blast
  have f1: "functions (metrics rep) = 1"
    using f by (simp add: function_defs_bare)
  have s8: "error_handling (category_scores rep) = 8"
    using s by (simp add: bare_handlers_bare ts)
  have h1: "filter (\<lambda>f. issue f = ''Bare Except Clause'') (high (issues rep)) =
       [\<lparr>line = Some 4, issue = ''Bare Except Clause'',
         description = ''Using bare except: catches all exceptions including system exits'',
         severity = HIGH\<rparr>]"
    using h by (simp add: bare_handlers_bare)
  have m0: "filter (\<lambda>f. issue f = ''No Error Handling'') (medium (issues rep)) = []"
    using m by (simp add: ts)
  have p': "parses_to tree_def_f code_def_f = Inr tree_def_f" by (simp add: parses_to_def)
  have ns': "filter is_TryStar (walk tree_def_f) = []" by code_simp
  have ts': "try_statements tree_def_f = []" by code_simp
  have bh': "bare_handlers tree_def_f = []" by code_simp
  from error_handling_score [where parse = "parses_to tree_def_f" and code = code_def_f
      and tree = tree_def_f and cleandoc = id and path = "''f.py''", OF p' ns']
  obtain rep' self1' where
    a': "analyze (parses_to tree_def_f) id code_def_f (init ''f.py'') = Inr (rep', self1')" and
    f': "functions (metrics rep') = length (function_defs tree_def_f)" and
    s': "error_handling (category_scores rep') =
      max 0 (10 - 2 * real (length (bare_handlers tree_def_f)) -
             (if try_statements tree_def_f = [] \<and> functions (metrics rep') > 0 then 2 else 0))" and
    h': "filter (\<lambda>f. issue f = ''Bare Except Clause'') (high (issues rep')) =
      map (\<lambda>n. \<lparr>line = Some (lineno n), issue = ''Bare Except Clause'',
                 description = ''Using bare except: catches all exceptions including system exits'',
                 severity = HIGH\<rparr>) (bare_handlers tree_def_f)" and
    m': "filter (\<lambda>f. issue f = ''No Error Handling'') (medium (issues rep')) =
      (if try_statements tree_def_f = [] \<and> functions (metrics rep') > 0
       then [\<lparr>line = Some 0, issue = ''No Error Handling'',
               description = ''No try/except blocks found'', severity = MEDIUM\<rparr>]
       else [])"
    by blast
  have f1': "functions (metrics rep') = 1"
    using f' by (simp add: function_defs_def_f)
  have s8': "error_handling (category_scores rep') = 8"
    using s' f1' by (simp add: bh' ts')
  have h0': "filter (\<lambda>f. issue f = ''Bare Except Clause'') (high (issues rep')) = []"
    using h' by (simp add: bh')
  have m1': "filter (\<lambda>f. issue f = ''No Error Handling'') (medium (issues rep')) =
        [\<lparr>line = Some 0, issue = ''No Error Handling'',
          description = ''No try/except blocks found'', severity = MEDIUM\<rparr>]"
    using m' f1' by (simp add: ts')
  from a f1 s8 h1 m0 a' f1' s8' h0' m1' show ?thesis by blast
qed

text \<open>
  Left out of the amended claim: a \<^verbatim>\<open>try\<close> statement with \<^verbatim>\<open>except*\<close> clauses is a
  \<^verbatim>\<open>TryStar\<close> node, which the count of \<^verbatim>\<open>Try\<close> nodes does not see. For the function \<^verbatim>\<open>g\<close>
  whose body is such a statement the code records \<^verbatim>\<open>No try/except blocks found\<close> and gives
  an error handling score of 8.
\<close>

lemma try_except_star_not_seen:
  "try_statements tree_try_star =
     [TryStar [pass_stmt] [ExceptHandler 4 (Some (Name ''E'' load)) [pass_stmt]] [] []]"
  "map_sum id (error_handling \<circ> category_scores \<circ> fst)
     (analyze (parses_to tree_try_star) id code_try_star (init ''g.py'')) = Inr 8"
  "map_sum id (hd \<circ> medium \<circ> issues \<circ> fst)
     (analyze (parses_to tree_try_star) id code_try_star (init ''g.py'')) =
   Inr \<lparr>line = Some 0, issue = ''No Error Handling'',
        description = ''No try/except blocks found'', severity = MEDIUM\<rparr>"
  by code_simp+

text \<open>
  C9. Only \<^verbatim>\<open>FunctionDef\<close> nodes count as functions; an \<^verbatim>\<open>AsyncFunctionDef\<close> node is none.
  For a source that parses and whose function definitions are all async, the report of a
  new object has 0 functions, maximal and average function length 0, and no
  issue of the kinds \<^verbatim>\<open>Long Function\<close>, \<^verbatim>\<open>Low Documentation\<close>, \<^verbatim>\<open>Missing Type Hints\<close>,
  \<^verbatim>\<open>Naming Convention\<close> and \<^verbatim>\<open>No Error Handling\<close>.
\<close>

theorem async_functions_invisible:
  assumes "parse code = Inr tree"
    and "\<forall>n \<in> set (walk tree). is_FunctionDef n \<or> is_AsyncFunctionDef n \<longrightarrow> is_AsyncFunctionDef n"
  shows "\<exists>rep self1. analyze parse cleandoc code (init path) = Inr (rep, self1) \<and>
    functions (metrics rep) = 0 \<and>
    max_function_length (metrics rep) = 0 \<and> avg_function_length (metrics rep) = 0 \<and>
    filter (\<lambda>f. issue f \<in> set [''Long Function'', ''Low Documentation'', ''Missing Type Hints'',
                                 ''Naming Convention'', ''No Error Handling''])
      (critical (issues rep) @ high (issues rep) @ medium (issues rep) @ low (issues rep)) = []"
proof -
  have nf: "\<And>n. n \<in> set (walk tree) \<Longrightarrow> \<not> is_FunctionDef n"
  proof
    fix n assume n: "n \<in> set (walk tree)" and fd: "is_FunctionDef n"
    with assms(2) have "is_AsyncFunctionDef n" by blast
    with fd show False by (cases n) simp_all
  qed
  then have fd: "function_defs tree = []"
    by (simp add: function_defs_def filter_empty_conv)
  have vl: "very_long_functions tree = []" and lf: "long_functions tree = []"
    and bn: "badly_named tree = []"
    using nf by (simp_all add: very_long_functions_def long_functions_def badly_named_def fd
        filter_empty_conv)
  have ld: "\<not> low_documentation cleandoc tree" and mh: "\<not> missing_type_hints tree"
    by (simp_all add: low_documentation_def missing_type_hints_def fd)
  define self1 where "self1 = run_analyses cleandoc (split_newline code) tree (init path)"
  define rep where "rep = report_of self1 (weighted_sum (self_scores self1))"
  have a: "analyze parse cleandoc code (init path) = Inr (rep, self1)"
    by (simp add: analyze_Inr [of parse code tree, OF assms(1)] rep_def self1_def)
  have m: "functions (metrics rep) = 0" "max_function_length (metrics rep) = 0"
    "avg_function_length (metrics rep) = 0"
    by (simp_all add: rep_def self1_def report_of_simps run_analyses_metrics init_def fd)
  have i: "issues rep =
     \<lparr>critical = secret_issues (List.enumerate 1 (split_newline code)) @
        map dangerous_function_issue (dangerous_calls tree),
      high = map bare_except_issue (bare_handlers tree),
      medium = (if check_duplication (split_newline code) then [code_duplication_issue] else []),
      low = map list_comprehension_issue (append_loops tree) @
        map print_statement_issue (print_calls tree)\<rparr>"
    by (simp add: rep_def self1_def report_of_simps run_analyses_issues init_def fd vl lf bn
        ld mh)
  have "filter (\<lambda>f. issue f \<in> set [''Long Function'', ''Low Documentation'', ''Missing Type Hints'',
                                 ''Naming Convention'', ''No Error Handling''])
      (critical (issues rep) @ high (issues rep) @ medium (issues rep) @ low (issues rep)) = []"
    unfolding i by (simp add: filter_kinds issue_kinds secret_issues_map)
  with a m show ?thesis
    by (intro exI [of _ rep] exI [of _ self1]) simp
qed

theorem async_functions_invisible_witness:
  "\<exists>rep self1. analyze (\<lambda>c. Inr tree_async) id code_async (init ''fetch.py'') = Inr (rep, self1) \<and>
     functions (metrics rep) = 0 \<and> max_function_length (metrics rep) = 0 \<and>
     filter (\<lambda>f. issue f \<in> set [''Long Function'', ''Low Documentation'', ''Missing Type Hints'',
                                  ''Naming Convention'', ''No Error Handling''])
       (critical (issues rep) @ high (issues rep) @ medium (issues rep) @ low (issues rep)) = []"
proof -
  have p: "(\<lambda>c. Inr tree_async) code_async = Inr tree_async" by simp
  have q: "\<forall>n \<in> set (walk tree_async).
      is_FunctionDef n \<or> is_AsyncFunctionDef n \<longrightarrow> is_AsyncFunctionDef n"
    by (simp add: walk_async)
  from async_functions_invisible [where parse = "\<lambda>c. Inr tree_async" and code = code_async
      and tree = tree_async and cleandoc = id and path = "''fetch.py''", OF p q]
  show ?thesis by blast
qed

lemma hardcoded_secret_issue_inj:
  "(hardcoded_secret_issue i = hardcoded_secret_issue m) = (i = m)"
  by (simp add: hardcoded_secret_issue_def)

lemma count_numbered:
  "length (filter (\<lambda>i. i = m)
     (concat (map (\<lambda>(i, t). replicate (c t) i) (List.enumerate k lines)))) =
   (if k \<le> m \<and> m < k + length lines then c (lines ! (m - k)) else 0)"
proof (induction lines arbitrary: k)
  case Nil
  then show ?case by simp
next
  case (Cons t lines)
  show ?case
  proof (cases "k = m")
    case True
    then show ?thesis using Cons [of "Suc k"] by simp
  next
    case False
    then show ?thesis using Cons [of "Suc k"] by (auto simp add: nth_Cons')
  qed
qed

lemma count_secret_issues:
  "length (filter (\<lambda>f. f = hardcoded_secret_issue m) (secret_issues (List.enumerate k lines))) =
   (if k \<le> m \<and> m < k + length lines then length (matching_patterns (lines ! (m - k))) else 0)"
proof -
  have "filter (\<lambda>f. f = hardcoded_secret_issue m) (map hardcoded_secret_issue is) =
      map hardcoded_secret_issue (filter (\<lambda>i. i = m) is)" for "is"
    by (induction "is") (simp_all add: hardcoded_secret_issue_inj)
  then show ?thesis
    by (simp add: secret_issues_map count_numbered)
qed

lemma length_secret_issues:
  "length (secret_issues (List.enumerate k lines)) =
     sum_list (map (\<lambda>t. length (matching_patterns t)) lines)"
  by (induction lines arbitrary: k) (simp_all add: secret_issues_def)

lemma dangerous_not_secret:
  "filter (\<lambda>f. f = hardcoded_secret_issue m) (map dangerous_function_issue ns) = []"
  by (induction ns) (simp_all add: hardcoded_secret_issue_def dangerous_function_issue_def)

lemma matching_patterns_password: "matching_patterns code_password = [''password'']"
  by code_simp

lemma lines_password: "split_newline code_password = [code_password]"
  by (simp add: code_password_def newline_def)

lemma dangerous_calls_password: "dangerous_calls tree_password = []"
  by (simp add: dangerous_calls_def walk_def tree_password_def load_def)

lemma matching_patterns_spec:
  "matching_patterns t =
     filter (\<lambda>key. matches_secret_pattern key t) [''password'', ''api_key'', ''secret'', ''token'']"
  by (simp add: matching_patterns_def secret_patterns_def re_search_secret_iff)

lemma lines_keys: "split_newline code_keys = [code_four_keys, code_no_break_space]"
  by code_simp

lemma matching_patterns_four_keys:
  "matching_patterns code_four_keys = [''password'', ''api_key'', ''secret'', ''token'']"
  by code_simp

lemma matching_patterns_no_break_space:
  "matching_patterns code_no_break_space = [''password'']"
  by code_simp

lemma dangerous_calls_keys: "dangerous_calls tree_keys = []"
  by code_simp

text \<open>
  C4. For a source that parses, analysed by a new object: for every line of the source,
  the number of CRITICAL issues \<^verbatim>\<open>Hardcoded Secret\<close> at that line number equals the number of
  the four key words \<^verbatim>\<open>password\<close>, \<^verbatim>\<open>api_key\<close>, \<^verbatim>\<open>secret\<close>, \<^verbatim>\<open>token\<close> whose pattern matches
  the line, the case ignored (\<open>matches_secret_pattern\<close> says what matching is; the search
  of the code is equal to it, \<open>re_search_secret_iff\<close>); each issue has a penalty of 3
  on the security score, which is not below 0; a line that reads \<^verbatim>\<open>password = "x"\<close> has exactly
  one such issue. The first witness is the source that consists of that line: one issue at
  line 1 and a security score of 10 - 3 = 7. The second is the source with the four key
  words in upper and mixed case on line 1 and, on line 2, a no-break space before the
  equals sign and a next-line character after it: four issues at line 1, one at line 2,
  and a security score of 0.
\<close>

theorem hardcoded_secret_per_matching_pattern:
  assumes "parse code = Inr tree"
  shows "\<exists>rep self1. analyze parse cleandoc code (init path) = Inr (rep, self1) \<and>
    (\<forall>i < length (split_newline code).
       length (filter (\<lambda>f. f = \<lparr>line = Some (Suc i), issue = ''Hardcoded Secret'',
                                 description = ''Potential hardcoded secret found'',
                                 severity = CRITICAL\<rparr>) (critical (issues rep))) =
         length (filter (\<lambda>key. matches_secret_pattern key (split_newline code ! i))
                   [''password'', ''api_key'', ''secret'', ''token'']) \<and>
       (split_newline code ! i = code_password \<longrightarrow>
          length (filter (\<lambda>f. f = \<lparr>line = Some (Suc i), issue = ''Hardcoded Secret'',
                                    description = ''Potential hardcoded secret found'',
                                    severity = CRITICAL\<rparr>) (critical (issues rep))) = 1)) \<and>
    length (filter (\<lambda>f. issue f = ''Hardcoded Secret'') (critical (issues rep))) =
      sum_list (map (\<lambda>t. length (filter (\<lambda>key. matches_secret_pattern key t)
                                     [''password'', ''api_key'', ''secret'', ''token'']))
                  (split_newline code)) \<and>
    security (category_scores rep) =
      max 0 (10 - 3 * real (length (filter (\<lambda>f. issue f = ''Hardcoded Secret'')
                                     (critical (issues rep)))) -
             3 * real (length (dangerous_calls tree)))"
proof -
  define lines where "lines = split_newline code"
  define self1 where "self1 = run_analyses cleandoc lines tree (init path)"
  define rep where "rep = report_of self1 (weighted_sum (self_scores self1))"
  have a: "analyze parse cleandoc code (init path) = Inr (rep, self1)"
    by (simp add: analyze_Inr [of parse code tree, OF assms] rep_def self1_def lines_def)
  have c: "critical (issues rep) =
      secret_issues (List.enumerate 1 lines) @ map dangerous_function_issue (dangerous_calls tree)"
    by (simp add: rep_def self1_def report_of_simps run_analyses_issues init_def)
  have n: "length (filter (\<lambda>f. f = hardcoded_secret_issue (Suc i)) (critical (issues rep))) =
      length (matching_patterns (lines ! i))" if "i < length lines" for i
    using that by (simp add: c count_secret_issues dangerous_not_secret)
  have t: "filter (\<lambda>f. issue f = ''Hardcoded Secret'') (critical (issues rep)) =
      secret_issues (List.enumerate 1 lines)"
    by (simp add: c filter_kind secret_issues_map)
  have s: "security (category_scores rep) =
      max 0 (10 - 3 * real (length (secret_issues (List.enumerate 1 lines))) -
             3 * real (length (dangerous_calls tree)))"
    by (simp add: rep_def self1_def report_of_simps run_analyses_scores)
  show ?thesis
    unfolding hardcoded_secret_issue_def [symmetric] matching_patterns_spec [symmetric]
  proof (intro exI [of _ rep] exI [of _ self1] conjI allI impI)
    show "analyze parse cleandoc code (init path) = Inr (rep, self1)" by (rule a)
  next
    fix i assume "i < length (split_newline code)"
    then show "length (filter (\<lambda>f. f = hardcoded_secret_issue (Suc i)) (critical (issues rep))) =
         length (matching_patterns (split_newline code ! i))"
      using n [of i] by (simp add: lines_def)
  next
    fix i assume "i < length (split_newline code)" and "split_newline code ! i = code_password"
    then show "length (filter (\<lambda>f. f = hardcoded_secret_issue (Suc i)) (critical (issues rep))) = 1"
      using n [of i] by (simp add: lines_def matching_patterns_password)
  next
    show "length (filter (\<lambda>f. issue f = ''Hardcoded Secret'') (critical (issues rep))) =
      sum_list (map (\<lambda>t. length (matching_patterns t)) (split_newline code))"
      by (simp add: t length_secret_issues lines_def)
  next
    show "security (category_scores rep) =
      max 0 (10 - 3 * real (length (filter (\<lambda>f. issue f = ''Hardcoded Secret'')
                                     (critical (issues rep)))) -
             3 * real (length (dangerous_calls tree)))"
      by (simp only: t s)
  qed
qed

theorem hardcoded_secret_per_matching_pattern_witness:
  "(\<exists>rep self1.
      analyze (\<lambda>c. Inr tree_password) id code_password (init ''settings.py'') = Inr (rep, self1) \<and>
      length (filter (\<lambda>f. f = \<lparr>line = Some 1, issue = ''Hardcoded Secret'',
                                description = ''Potential hardcoded secret found'',
                                severity = CRITICAL\<rparr>) (critical (issues rep))) = 1 \<and>
      length (filter (\<lambda>f. issue f = ''Hardcoded Secret'') (critical (issues rep))) = 1 \<and>
      security (category_scores rep) = 7) \<and>
   (\<exists>rep self1.
      analyze (parses_to tree_keys) id code_keys (init ''keys.py'') = Inr (rep, self1) \<and>
      length (filter (\<lambda>f. f = \<lparr>line = Some 1, issue = ''Hardcoded Secret'',
                                description = ''Potential hardcoded secret found'',
                                severity = CRITICAL\<rparr>) (critical (issues rep))) = 4 \<and>
      length (filter (\<lambda>f. f = \<lparr>line = Some 2, issue = ''Hardcoded Secret'',
                                description = ''Potential hardcoded secret found'',
                                severity = CRITICAL\<rparr>) (critical (issues rep))) = 1 \<and>
      length (filter (\<lambda>f. issue f = ''Hardcoded Secret'') (critical (issues rep))) = 5 \<and>
      security (category_scores rep) = 0)"
proof -
  have p: "(\<lambda>c. Inr tree_password) code_password = Inr tree_password" by simp
  from hardcoded_secret_per_matching_pattern [where parse = "\<lambda>c. Inr tree_password"
      and code = code_password and tree = tree_password and cleandoc = id
      and path = "''settings.py''", OF p]
  obtain rep self1 where
    a: "analyze (\<lambda>c. Inr tree_password) id code_password (init ''settings.py'') =
      Inr (rep, self1)" and
    n: "\<forall>i < length (split_newline code_password).
       length (filter (\<lambda>f. f = \<lparr>line = Some (Suc i), issue = ''Hardcoded Secret'',
                                 description = ''Potential hardcoded secret found'',
                                 severity = CRITICAL\<rparr>) (critical (issues rep))) =
         length (filter (\<lambda>key. matches_secret_pattern key (split_newline code_password ! i))
                   [''password'', ''api_key'', ''secret'', ''token'']) \<and>
       (split_newline code_password ! i = code_password \<longrightarrow>
          length (filter (\<lambda>f. f = \<lparr>line = Some (Suc i), issue = ''Hardcoded Secret'',
                                    description = ''Potential hardcoded secret found'',
                                    severity = CRITICAL\<rparr>) (critical (issues rep))) = 1)" and
    t: "length (filter (\<lambda>f. issue f = ''Hardcoded Secret'') (critical (issues rep))) =
      sum_list (map (\<lambda>t. length (filter (\<lambda>key. matches_secret_pattern key t)
                                     [''password'', ''api_key'', ''secret'', ''token'']))
                  (split_newline code_password))" and
    s: "security (category_scores rep) =
      max 0 (10 - 3 * real (length (filter (\<lambda>f. issue f = ''Hardcoded Secret'')
                                     (critical (issues rep)))) -
             3 * real (length (dangerous_calls tree_password)))"
    by blast
  from n have n1: "length (filter (\<lambda>f. f = \<lparr>line = Some 1, issue = ''Hardcoded Secret'',
      description = ''Potential hardcoded secret found'', severity = CRITICAL\<rparr>)
      (critical (issues rep))) = 1"
    by (simp add: lines_password)
  from t have t1:
    "length (filter (\<lambda>f. issue f = ''Hardcoded Secret'') (critical (issues rep))) = 1"
    unfolding matching_patterns_spec [symmetric]
    by (simp add: lines_password matching_patterns_password)
  from s t1 have s7: "security (category_scores rep) = 7"
    by (simp add: dangerous_calls_password)
  have q: "parses_to tree_keys code_keys = Inr tree_keys" by (simp add: parses_to_def)
  from hardcoded_secret_per_matching_pattern [where parse = "parses_to tree_keys"
      and code = code_keys and tree = tree_keys and cleandoc = id
      and path = "''keys.py''", OF q]
  obtain rep' self1' where
    a': "analyze (parses_to tree_keys) id code_keys (init ''keys.py'') = Inr (rep', self1')" and
    n': "\<forall>i < length (split_newline code_keys).
       length (filter (\<lambda>f. f = \<lparr>line = Some (Suc i), issue = ''Hardcoded Secret'',
                                 description = ''Potential hardcoded secret found'',
                                 severity = CRITICAL\<rparr>) (critical (issues rep'))) =
         length (filter (\<lambda>key. matches_secret_pattern key (split_newline code_keys ! i))
                   [''password'', ''api_key'', ''secret'', ''token''])" and
    t': "length (filter (\<lambda>f. issue f = ''Hardcoded Secret'') (critical (issues rep'))) =
      sum_list (map (\<lambda>t. length (filter (\<lambda>key. matches_secret_pattern key t)
                                     [''password'', ''api_key'', ''secret'', ''token'']))
                  (split_newline code_keys))" and
    s': "security (category_scores rep') =
      max 0 (10 - 3 * real (length (filter (\<lambda>f. issue f = ''Hardcoded Secret'')
                                     (critical (issues rep')))) -
             3 * real (length (dangerous_calls tree_keys)))"
    by blast
  note n'' = n' [unfolded matching_patterns_spec [symmetric] lines_keys]
  from n'' [THEN spec, of 0]
  have n4: "length (filter (\<lambda>f. f = \<lparr>line = Some 1, issue = ''Hardcoded Secret'',
      description = ''Potential hardcoded secret found'', severity = CRITICAL\<rparr>)
      (critical (issues rep'))) = 4"
    by (simp add: matching_patterns_four_keys)
  from n'' [THEN spec, of 1]
  have n5: "length (filter (\<lambda>f. f = \<lparr>line = Some 2, issue = ''Hardcoded Secret'',
      description = ''Potential hardcoded secret found'', severity = CRITICAL\<rparr>)
      (critical (issues rep'))) = 1"
    by (simp add: matching_patterns_no_break_space numeral_2_eq_2)
  from t' have t5:
    "length (filter (\<lambda>f. issue f = ''Hardcoded Secret'') (critical (issues rep'))) = 5"
    unfolding matching_patterns_spec [symmetric]
    by (simp add: lines_keys matching_patterns_four_keys matching_patterns_no_break_space)
  from s' t5 have s0: "security (category_scores rep') = 0"
    by (simp add: dangerous_calls_keys)
  from a n1 t1 s7 a' n4 n5 t5 s0 show ?thesis by blast
qed

lemma is_append_call_append_stmt: "is_append_call (append_stmt l xs)"
  by (simp add: is_append_call_def append_stmt_def)

lemma while_loop_in_tree: "list_ex (\<lambda>n. n = while_loop) (walk tree_while)"
  by code_simp

lemma append_in_while_loop: "list_ex is_append_call (walk while_loop)"
  by code_simp

lemma append_loops_while: "append_loops tree_while = []"
  by code_simp

lemma append_loops_for: "append_loops tree_for = [for_loop]"
  by code_simp

text \<open>
  C5, as stated, fails: the claim speaks of every loop node, and the check looks at
  \<^verbatim>\<open>ast.For\<close> nodes only. In the file \<^verbatim>\<open>while c:\<close>, \<^verbatim>\<open>    xs.append(1)\<close> the while loop
  is a node of the tree, its body holds an expression statement that calls a method named
  \<^verbatim>\<open>append\<close>, and \<^verbatim>\<open>_analyze_performance\<close> records no issue and leaves the score at 10.
\<close>

theorem while_loop_with_append_not_reported:
  "is_While while_loop \<and> while_loop \<in> set (walk tree_while) \<and>
   list_ex is_append_call (body while_loop) \<and> list_ex is_append_call (walk while_loop) \<and>
   low (self_issues (analyze_performance tree_while (init ''loop.py''))) = [] \<and>
   performance (self_scores (analyze_performance tree_while (init ''loop.py''))) = 10"
proof -
  have "is_While while_loop" "list_ex is_append_call (body while_loop)"
    by (simp_all add: while_loop_def is_append_call_append_stmt)
  moreover have "while_loop \<in> set (walk tree_while)"
    using while_loop_in_tree by (simp add: list_ex_iff)
  moreover have "list_ex is_append_call (walk while_loop)"
    by (rule append_in_while_loop)
  moreover have "low (self_issues (analyze_performance tree_while (init ''loop.py''))) = []"
    "performance (self_scores (analyze_performance tree_while (init ''loop.py''))) = 10"
    by (simp_all add: analyze_performance_closed append_loops_while init_def)
  ultimately show ?thesis by simp
qed

text \<open>
  C5, amended: for every \<^verbatim>\<open>for\<close> statement of the tree (an \<^verbatim>\<open>ast.For\<close> node; not a
  \<^verbatim>\<open>while\<close> loop) such that the walk from it meets an expression statement that calls a
  method named \<^verbatim>\<open>append\<close>, \<^verbatim>\<open>_analyze_performance\<close> appends one LOW issue
  \<^verbatim>\<open>List Comprehension Opportunity\<close> at the line of the loop, in the order of the walk, and
  takes 0.3 from the performance score for each, which is not below 0: one issue for each
  such loop, however many calls of \<^verbatim>\<open>append\<close> it holds. The witness is a loop with two.
\<close>

theorem for_loop_with_append_reported_once:
  "low (self_issues (analyze_performance tree self)) =
     low (self_issues self) @
     map (\<lambda>n. \<lparr>line = Some (lineno n), issue = ''List Comprehension Opportunity'',
                description = ''Consider using list comprehension'', severity = LOW\<rparr>)
       (filter (\<lambda>n. is_For n \<and> list_ex is_append_call (walk n)) (walk tree)) \<and>
   performance (self_scores (analyze_performance tree self)) =
     max 0 (10 - 0.3 * real (length
       (filter (\<lambda>n. is_For n \<and> list_ex is_append_call (walk n)) (walk tree))))"
proof -
  have "list_comprehension_issue =
      (\<lambda>n. \<lparr>line = Some (lineno n), issue = ''List Comprehension Opportunity'',
                description = ''Consider using list comprehension'', severity = LOW\<rparr>)"
    by (rule ext) (simp add: list_comprehension_issue_def)
  then show ?thesis
    by (simp add: analyze_performance_closed append_loops_def)
qed

theorem for_loop_with_append_reported_once_witness:
  "list_ex is_append_call (body for_loop) \<and> length (filter is_append_call (body for_loop)) = 2 \<and>
   low (self_issues (analyze_performance tree_for (init ''loop.py''))) =
     [\<lparr>line = Some 1, issue = ''List Comprehension Opportunity'',
       description = ''Consider using list comprehension'', severity = LOW\<rparr>] \<and>
   performance (self_scores (analyze_performance tree_for (init ''loop.py''))) = 9.7"
proof -
  have b: "list_ex is_append_call (body for_loop)"
    "length (filter is_append_call (body for_loop)) = 2"
    by (simp_all add: for_loop_def is_append_call_append_stmt)
  have f: "filter (\<lambda>n. is_For n \<and> list_ex is_append_call (walk n)) (walk tree_for) = [for_loop]"
    using append_loops_for by (simp add: append_loops_def)
  from for_loop_with_append_reported_once [of tree_for "init ''loop.py''"]
  have "low (self_issues (analyze_performance tree_for (init ''loop.py''))) =
     [\<lparr>line = Some 1, issue = ''List Comprehension Opportunity'',
       description = ''Consider using list comprehension'', severity = LOW\<rparr>]"
    "performance (self_scores (analyze_performance tree_for (init ''loop.py''))) = 9.7"
    unfolding f by (simp_all add: init_def for_loop_def)
  with b show ?thesis by simp
qed

lemma function_defs_kwonly: "function_defs tree_kwonly = [kwonly_def]"
  by code_simp

lemma hinted_kwonly: "hinted tree_kwonly = []"
  by code_simp

lemma documented_nothing:
  "body n = [pass_stmt] \<Longrightarrow> \<not> has_docstring cleandoc n"
  by (simp add: has_docstring_def get_docstring_def pass_stmt_def)

lemma documented_kwonly: "documented cleandoc tree_kwonly = []"
  by (simp add: documented_def function_defs_kwonly documented_nothing kwonly_def_def)

lemma format_0f_zero: "format_0f 0 = ''0''"
  by (simp add: format_0f_def round_half_even_def str_int_def str_nat.simps [of 0])

lemma hinted_def_f: "hinted tree_def_f = []"
  by code_simp

lemma documented_def_f: "documented cleandoc tree_def_f = []"
  by (simp add: documented_def function_defs_def_f documented_nothing)

lemma class_defs_def_f: "class_defs tree_def_f = []"
  by code_simp

lemma maintainability_def_f_example:
  "\<exists>rep self1. analyze (\<lambda>c. Inr tree_def_f) cleandoc code_def_f (init ''f.py'') = Inr (rep, self1) \<and>
     functions (metrics rep) = 1 \<and> classes (metrics rep) = 0 \<and>
     maintainability (category_scores rep) = 7"
proof -
  define self1 where
    "self1 = run_analyses cleandoc (split_newline code_def_f) tree_def_f (init ''f.py'')"
  define rep where "rep = report_of self1 (weighted_sum (self_scores self1))"
  have a: "analyze (\<lambda>c. Inr tree_def_f) cleandoc code_def_f (init ''f.py'') = Inr (rep, self1)"
    by (simp add: analyze_Inr rep_def self1_def)
  have m: "functions (metrics rep) = 1" "classes (metrics rep) = 0"
    by (simp_all add: rep_def self1_def report_of_simps run_analyses_metrics init_def
        function_defs_def_f class_defs_def_f)
  have s: "maintainability (category_scores rep) = 7"
    by (simp add: rep_def self1_def report_of_simps run_analyses_scores
        low_documentation_def missing_type_hints_def doc_coverage_def hint_coverage_def
        function_defs_def_f hinted_def_f documented_def_f)
  from a m s show ?thesis
    by (intro exI [of _ rep] exI [of _ self1]) simp
qed

text \<open>
  C7. The claim: with at least one function, the maintainability score is 10, minus 2 when
  fewer than 50 percent of the functions have a docstring, minus 1 when fewer than
  30 percent of the functions have a type annotation on the return or on any parameter;
  for \<^verbatim>\<open>def f():\<close> with the body \<^verbatim>\<open>pass\<close> it is 7, with 1 function and 0 classes. The
  example is as claimed (lemma \<open>maintainability_def_f_example\<close>). The check of the
  annotations reads \<^verbatim>\<open>node.returns\<close> and \<^verbatim>\<open>node.args.args\<close> only, so annotations of
  keyword-only, positional-only, \<^verbatim>\<open>*args\<close> and \<^verbatim>\<open>**kwargs\<close> parameters are missed: for
  \<^verbatim>\<open>def f(*, x: int):\<close> with the body \<^verbatim>\<open>pass\<close>, whose one function has an annotated
  parameter, the code records \<^verbatim>\<open>Only 0% of functions have type hints\<close> and the score is
  7 where the claim gives 10 - 2 = 8.
\<close>

theorem keyword_only_annotation_not_counted:
  "\<exists>rep self1.
     analyze (\<lambda>c. Inr tree_kwonly) cleandoc code_kwonly (init ''kw.py'') = Inr (rep, self1) \<and>
     function_defs tree_kwonly = [kwonly_def] \<and>
     map arg_name (filter (\<lambda>a. annotation a \<noteq> None) (kwonlyargs (fun_args kwonly_def))) = [''x''] \<and>
     functions (metrics rep) = 1 \<and>
     maintainability (category_scores rep) = 7 \<and>
     low (issues rep) =
       [\<lparr>line = Some 0, issue = ''Missing Type Hints'',
         description = ''Only 0% of functions have type hints'', severity = LOW\<rparr>]"
proof -
  define self1 where
    "self1 = run_analyses cleandoc (split_newline code_kwonly) tree_kwonly (init ''kw.py'')"
  define rep where "rep = report_of self1 (weighted_sum (self_scores self1))"
  have a: "analyze (\<lambda>c. Inr tree_kwonly) cleandoc code_kwonly (init ''kw.py'') = Inr (rep, self1)"
    by (simp add: analyze_Inr rep_def self1_def)
  have k: "map arg_name (filter (\<lambda>a. annotation a \<noteq> None) (kwonlyargs (fun_args kwonly_def))) =
      [''x'']"
    by (simp add: kwonly_def_def)
  have m: "functions (metrics rep) = 1"
    by (simp add: rep_def self1_def report_of_simps run_analyses_metrics init_def
        function_defs_kwonly)
  have mh: "missing_type_hints tree_kwonly" and ld: "low_documentation cleandoc tree_kwonly"
    and hc: "hint_coverage tree_kwonly = 0"
    by (simp_all add: low_documentation_def missing_type_hints_def doc_coverage_def
        hint_coverage_def function_defs_kwonly hinted_kwonly documented_kwonly)
  have s: "maintainability (category_scores rep) = 7"
    by (simp add: rep_def self1_def report_of_simps run_analyses_scores mh ld)
  have al: "append_loops tree_kwonly = []" and pc: "print_calls tree_kwonly = []"
    and bn: "badly_named tree_kwonly = []"
    by code_simp+
  have l: "low (issues rep) =
       [\<lparr>line = Some 0, issue = ''Missing Type Hints'',
         description = ''Only 0% of functions have type hints'', severity = LOW\<rparr>]"
    by (simp add: rep_def self1_def report_of_simps run_analyses_issues init_def mh al pc bn
        missing_type_hints_issue_def hc format_0f_zero)
  from a function_defs_kwonly k m s l show ?thesis
    by (intro exI [of _ rep] exI [of _ self1]) simp
qed

lemma print_report_verdict:
  "print_report rep =
     (get_rating (overall_score rep),
      if best_practices (category_scores rep) \<ge> 9 \<and> critical (issues rep) = []
      then PRODUCTION_READY_Excellent
      else if best_practices (category_scores rep) \<ge> 7 \<and> critical (issues rep) = []
      then PRODUCTION_READY_Good
      else if critical (issues rep) \<noteq> [] then NOT_PRODUCTION_READY
      else NEEDS_IMPROVEMENT)"
  by (simp add: print_report_def items_def)

lemma nodes_prints:
  "function_defs tree_prints = []" "bare_handlers tree_prints = []" "try_blocks tree_prints = []"
  "append_loops tree_prints = []" "dangerous_calls tree_prints = []"
  "badly_named tree_prints = []" "length (print_calls tree_prints) = 16"
  by code_simp+

lemma lines_prints_clean:
  "secret_issues (List.enumerate (Suc 0) (split_newline code_prints)) = []"
  "check_duplication (split_newline code_prints) = False"
  by code_simp+

lemma round1_952: "round1 (238 / 25) = 19 / 2"
  by (simp add: round1_def round_half_even_def Let_def)

text \<open>
  C2. The claim: the verdict that \<^verbatim>\<open>print_report\<close> prints is decided by the overall score
  and the presence of CRITICAL issues. In the code the variable \<^verbatim>\<open>score\<close> that the verdict
  tests has been assigned again by the loop that prints the category scores, so the
  verdict tests the last category score, best practices (lemma \<open>print_report_verdict\<close>).
  For a file of sixteen lines \<^verbatim>\<open>print(1)\<close> the overall score is 9.5 with five stars and there
  is no CRITICAL issue, for which the claim gives the verdict "ready, excellent"; the best
  practices score is 6.8 and the verdict printed is "needs improvement".
\<close>

theorem verdict_reads_best_practices_score:
  "\<exists>rep self1.
     analyze (\<lambda>c. Inr tree_prints) cleandoc code_prints (init ''prints.py'') = Inr (rep, self1) \<and>
     overall_score rep = 9.5 \<and> critical (issues rep) = [] \<and>
     best_practices (category_scores rep) = 6.8 \<and>
     print_report rep = (5, NEEDS_IMPROVEMENT)"
proof -
  define self1 where
    "self1 = run_analyses cleandoc (split_newline code_prints) tree_prints (init ''prints.py'')"
  define rep where "rep = report_of self1 (weighted_sum (self_scores self1))"
  have a: "analyze (\<lambda>c. Inr tree_prints) cleandoc code_prints (init ''prints.py'') =
      Inr (rep, self1)"
    by (simp add: analyze_Inr rep_def self1_def)
  have fl: "very_long_functions tree_prints = []" "long_functions tree_prints = []"
    "\<not> low_documentation cleandoc tree_prints" "\<not> missing_type_hints tree_prints"
    by (simp_all add: very_long_functions_def long_functions_def low_documentation_def
        missing_type_hints_def nodes_prints)
  have sc: "self_scores self1 =
      \<lparr>structure = 10, error_handling = 10, performance = 10, security = 10,
       maintainability = 10, best_practices = 6.8\<rparr>"
    by (simp add: self1_def run_analyses_scores nodes_prints lines_prints_clean fl init_def)
  have c: "critical (issues rep) = []"
    by (simp add: rep_def self1_def report_of_simps run_analyses_issues init_def nodes_prints
        lines_prints_clean)
  have b: "best_practices (category_scores rep) = 6.8"
    by (simp add: rep_def report_of_simps sc)
  have w: "weighted_sum (self_scores self1) = 238 / 25"
    by (simp add: sc weighted_sum_def)
  have o: "overall_score rep = 9.5"
    by (simp add: rep_def report_of_simps w round1_952)
  have p: "print_report rep = (5, NEEDS_IMPROVEMENT)"
    by (simp add: print_report_verdict o b c get_rating_def)
  from a o c b p show ?thesis
    by (intro exI [of _ rep] exI [of _ self1]) simp
qed

lemma run_analyses_file_name:
  "file_name (run_analyses cleandoc lines tree self) = file_name self"
  by (simp add: run_analyses_def analyses_closed)

lemma init_simps:
  "file_name (init path) = basename path"
  "self_issues (init path) = \<lparr>critical = [], high = [], medium = [], low = []\<rparr>"
  "self_metrics (init path) =
     \<lparr>lines_of_code = 0, comment_lines = 0, blank_lines = 0, functions = 0,
      classes = 0, complexity = 0, max_function_length = 0, avg_function_length = 0\<rparr>"
  by (simp_all add: init_def)

lemma report_of_new_object:
  "report_of (run_analyses cleandoc lines tree (init path))
     (weighted_sum (self_scores (run_analyses cleandoc lines tree (init path)))) =
   report_of_text cleandoc (basename path) lines tree"
proof -
  have i: "self_issues (run_analyses cleandoc lines tree (init path)) =
      issues_of_text cleandoc lines tree"
    by (simp add: run_analyses_issues init_simps issues_of_text_def)
  have s: "self_scores (run_analyses cleandoc lines tree (init path)) =
      scores_of_text cleandoc lines tree"
    by (simp add: run_analyses_scores init_simps scores_of_text_def)
  have m: "self_metrics (run_analyses cleandoc lines tree (init path)) =
      metrics_of_text lines tree"
    by (simp add: run_analyses_metrics init_simps metrics_of_text_def)
  show ?thesis
    by (simp add: report_of_def report_of_text_def i s m run_analyses_file_name init_simps)
qed

lemma report_of_agreeing_objects:
  assumes "file_name self = file_name self'" and "self_issues self = self_issues self'"
    and "self_metrics self = self_metrics self'"
  shows "report_of (run_analyses cleandoc lines tree self)
           (weighted_sum (self_scores (run_analyses cleandoc lines tree self))) =
         report_of (run_analyses cleandoc lines tree self')
           (weighted_sum (self_scores (run_analyses cleandoc lines tree self')))"
proof -
  have i: "self_issues (run_analyses cleandoc lines tree self) =
      self_issues (run_analyses cleandoc lines tree self')"
    by (simp only: run_analyses_issues assms)
  have s: "self_scores (run_analyses cleandoc lines tree self) =
      self_scores (run_analyses cleandoc lines tree self')"
    by (simp only: run_analyses_scores assms)
  have m: "self_metrics (run_analyses cleandoc lines tree self) =
      self_metrics (run_analyses cleandoc lines tree self')"
    by (simp only: run_analyses_metrics assms)
  show ?thesis
    by (simp add: report_of_def i s m run_analyses_file_name assms)
qed

lemma report_new_objects_same_name:
  assumes "basename path = basename path'"
  shows "map_sum id fst (analyze parse cleandoc code (init path)) =
         map_sum id fst (analyze parse cleandoc code (init path'))"
proof (cases "parse code")
  case (Inl e)
  then show ?thesis by (simp add: analyze_Inl init_overall)
next
  case (Inr tree)
  show ?thesis
    by (simp add: analyze_Inr [of parse code tree, OF Inr] report_of_new_object assms)
qed

lemma notions_def_f:
  "secret_issues (List.enumerate (Suc 0) (split_newline code_def_f)) = []"
  "dangerous_calls tree_def_f = []"
  "very_long_functions tree_def_f = []"
  "long_functions tree_def_f = []"
  "bare_handlers tree_def_f = []"
  "check_duplication (split_newline code_def_f) = False"
  "try_blocks tree_def_f = []"
  "low_documentation id tree_def_f = True"
  "missing_type_hints tree_def_f = True"
  "append_loops tree_def_f = []"
  "print_calls tree_def_f = []"
  "badly_named tree_def_f = []"
  by code_simp+

lemma issue_counts_def_f:
  "length (critical (self_issues (run_analyses id (split_newline code_def_f) tree_def_f self))) =
     length (critical (self_issues self))"
  "length (high (self_issues (run_analyses id (split_newline code_def_f) tree_def_f self))) =
     length (high (self_issues self))"
  "length (medium (self_issues (run_analyses id (split_newline code_def_f) tree_def_f self))) =
     length (medium (self_issues self)) + 2"
  "length (low (self_issues (run_analyses id (split_newline code_def_f) tree_def_f self))) =
     length (low (self_issues self)) + 1"
  by (simp_all add: run_analyses_issues notions_def_f function_defs_def_f)

lemma functions_def_f:
  "functions (self_metrics (run_analyses id (split_newline code_def_f) tree_def_f self)) =
     functions (self_metrics self) + 1"
  by (simp add: run_analyses_metrics function_defs_def_f)

text \<open>
  C8. The claim: two runs of the analysis over the same unchanged text give identical
  reports, the analysis being a pure function of the text. A run of the analysis is a call
  of \<^verbatim>\<open>analyze\<close>, and that reads and extends the lists of issues and the counters that the
  object holds: for the file \<^verbatim>\<open>def f():\<close>, \<^verbatim>\<open>    pass\<close>, the first call on a new object
  reports 1 function and 3 issues, a second call on that object, over the same text,
  reports 2 functions and 6 issues.
\<close>

theorem second_analyze_on_same_object_differs:
  "analyze (parses_to tree_def_f) id code_def_f (init ''f.py'') =
     Inr (report_of_first_run, object_after_first_run) \<and>
   analyze (parses_to tree_def_f) id code_def_f object_after_first_run =
     Inr (report_of_second_run, object_after_second_run) \<and>
   functions (metrics report_of_first_run) = 1 \<and>
   functions (metrics report_of_second_run) = 2 \<and>
   total_issues report_of_first_run = 3 \<and>
   total_issues report_of_second_run = 6"
proof -
  have p: "parses_to tree_def_f code_def_f = Inr tree_def_f" by (simp add: parses_to_def)
  have 1: "analyze (parses_to tree_def_f) id code_def_f (init ''f.py'') =
      Inr (report_of_first_run, object_after_first_run)"
    by (simp add: analyze_Inr [of "parses_to tree_def_f" code_def_f tree_def_f, OF p] report_of_first_run_def object_after_first_run_def)
  have 2: "analyze (parses_to tree_def_f) id code_def_f object_after_first_run =
      Inr (report_of_second_run, object_after_second_run)"
    by (simp add: analyze_Inr [of "parses_to tree_def_f" code_def_f tree_def_f, OF p] report_of_second_run_def object_after_second_run_def)
  have 3: "functions (metrics report_of_first_run) = 1"
    by (simp add: report_of_first_run_def object_after_first_run_def report_of_simps
        functions_def_f init_simps)
  have 4: "functions (metrics report_of_second_run) = 2"
    by (simp add: report_of_second_run_def object_after_second_run_def
        object_after_first_run_def report_of_simps functions_def_f init_simps)
  have 5: "total_issues report_of_first_run = 3"
    by (simp add: report_of_first_run_def object_after_first_run_def report_of_def
        issue_counts_def_f init_simps)
  have 6: "total_issues report_of_second_run = 6"
    by (simp add: report_of_second_run_def object_after_second_run_def
        object_after_first_run_def report_of_def issue_counts_def_f init_simps)
  from 1 2 3 4 5 6 show ?thesis by blast
qed

text \<open>
  C8, amended. Two runs of the analysis over the same text give identical reports when each
  run is made by a newly constructed object, as the loop of \<^verbatim>\<open>main\<close> does, for paths with the
  same base name:
  \<^item> for a text that parses, the report of a new object is \<open>report_of_text\<close>, a function of
    the base name of the path, the lines of the text and its tree, and of nothing else;
  \<^item> for a text that parses, the report depends on the object only through its file name,
    its lists of issues and its metrics: two objects that agree on these give the same
    report, whatever path, scores and overall score they hold;
  \<^item> for every text, whether it parses or not, two new objects for paths with the same base name give the
    same report or the same exception;
  \<^item> when the loop of \<^verbatim>\<open>main\<close> analyses two such paths and the file system gives the same text
    for both, the two reports, and what is printed from them, are the report and the print of
    one analysis of that text by a new object (or the run ends with the exception of that
    analysis).

  A second call of \<^verbatim>\<open>analyze\<close> on an object that has run is not covered.
\<close>

theorem new_object_report_is_function_of_text:
  "(parse code = Inr tree \<longrightarrow>
      map_sum id fst (analyze parse cleandoc code (init path)) =
        Inr (report_of_text cleandoc (basename path) (split_newline code) tree)) \<and>
   (parse code = Inr tree \<and> file_name self = file_name self' \<and>
    self_issues self = self_issues self' \<and> self_metrics self = self_metrics self' \<longrightarrow>
      map_sum id fst (analyze parse cleandoc code self) =
        map_sum id fst (analyze parse cleandoc code self')) \<and>
   (basename path = basename path' \<longrightarrow>
      map_sum id fst (analyze parse cleandoc code (init path)) =
        map_sum id fst (analyze parse cleandoc code (init path'))) \<and>
   (fs path = Some code \<and> fs path' = Some code \<and> basename path = basename path' \<longrightarrow>
      analyze_files parse cleandoc fs [path, path'] =
        (case analyze parse cleandoc code (init path) of
           Inl err \<Rightarrow> Inl err
         | Inr (rep, self1) \<Rightarrow> Inr [(rep, print_report rep), (rep, print_report rep)]))"
proof (intro conjI impI)
  assume p: "parse code = Inr tree"
  show "map_sum id fst (analyze parse cleandoc code (init path)) =
      Inr (report_of_text cleandoc (basename path) (split_newline code) tree)"
    by (simp add: analyze_Inr [of parse code tree, OF p] report_of_new_object)
next
  assume h: "parse code = Inr tree \<and> file_name self = file_name self' \<and>
    self_issues self = self_issues self' \<and> self_metrics self = self_metrics self'"
  then have p: "parse code = Inr tree" by simp
  from h have "report_of (run_analyses cleandoc (split_newline code) tree self)
           (weighted_sum (self_scores (run_analyses cleandoc (split_newline code) tree self))) =
         report_of (run_analyses cleandoc (split_newline code) tree self')
           (weighted_sum (self_scores (run_analyses cleandoc (split_newline code) tree self')))"
    by (intro report_of_agreeing_objects) simp_all
  then show "map_sum id fst (analyze parse cleandoc code self) =
      map_sum id fst (analyze parse cleandoc code self')"
    by (simp add: analyze_Inr [of parse code tree, OF p])
next
  assume "basename path = basename path'"
  then show "map_sum id fst (analyze parse cleandoc code (init path)) =
      map_sum id fst (analyze parse cleandoc code (init path'))"
    by (rule report_new_objects_same_name)
next
  assume h: "fs path = Some code \<and> fs path' = Some code \<and> basename path = basename path'"
  then have e: "map_sum id fst (analyze parse cleandoc code (init path')) =
      map_sum id fst (analyze parse cleandoc code (init path))"
    by (intro report_new_objects_same_name) simp
  show "analyze_files parse cleandoc fs [path, path'] =
      (case analyze parse cleandoc code (init path) of
         Inl err \<Rightarrow> Inl err
       | Inr (rep, self1) \<Rightarrow> Inr [(rep, print_report rep), (rep, print_report rep)])"
  proof (cases "analyze parse cleandoc code (init path)")
    case (Inl err)
    then show ?thesis using h by simp
  next
    case (Inr r)
    obtain rep self1 where r: "r = (rep, self1)" by (cases r)
    from e Inr r obtain self2 where
      "analyze parse cleandoc code (init path') = Inr (rep, self2)"
      by (cases "analyze parse cleandoc code (init path')") auto
    then show ?thesis using h Inr r by simp
  qed
qed

theorem new_object_report_is_function_of_text_witness:
  "map_sum id fst (analyze (parses_to tree_def_f) id code_def_f (init ''a/f.py'')) =
     Inr (report_of_text id ''f.py'' (split_newline code_def_f) tree_def_f) \<and>
   functions (metrics (report_of_text id ''f.py'' (split_newline code_def_f) tree_def_f)) = 1 \<and>
   total_issues (report_of_text id ''f.py'' (split_newline code_def_f) tree_def_f) = 3 \<and>
   map_sum id fst (analyze (parses_to tree_def_f) id code_def_f (init ''a/f.py'')) =
     map_sum id fst (analyze (parses_to tree_def_f) id code_def_f
       ((init ''b/f.py'')\<lparr>self_scores := self_scores object_after_first_run,
                           self_overall_score := Some 3\<rparr>)) \<and>
   map_sum id fst (analyze (parses_to tree_def_f) id code_def_f (init ''a/f.py'')) =
     map_sum id fst (analyze (parses_to tree_def_f) id code_def_f (init ''b/f.py'')) \<and>
   analyze_files (parses_to tree_def_f) id [''a/f.py'' \<mapsto> code_def_f, ''b/f.py'' \<mapsto> code_def_f]
       [''a/f.py'', ''b/f.py''] =
     Inr [(report_of_text id ''f.py'' (split_newline code_def_f) tree_def_f,
           print_report (report_of_text id ''f.py'' (split_newline code_def_f) tree_def_f)),
          (report_of_text id ''f.py'' (split_newline code_def_f) tree_def_f,
           print_report (report_of_text id ''f.py'' (split_newline code_def_f) tree_def_f))]"
proof -
  have p: "parses_to tree_def_f code_def_f = Inr tree_def_f" by (simp add: parses_to_def)
  have b: "basename ''a/f.py'' = ''f.py''" "basename ''b/f.py'' = ''f.py''" by code_simp+
  have f: "[''a/f.py'' \<mapsto> code_def_f, ''b/f.py'' \<mapsto> code_def_f] ''a/f.py'' = Some code_def_f"
    "[''a/f.py'' \<mapsto> code_def_f, ''b/f.py'' \<mapsto> code_def_f] ''b/f.py'' = Some code_def_f"
    by simp_all
  have o: "file_name (init ''a/f.py'') =
      file_name ((init ''b/f.py'')\<lparr>self_scores := self_scores object_after_first_run,
                                   self_overall_score := Some 3\<rparr>)"
    "self_issues (init ''a/f.py'') =
      self_issues ((init ''b/f.py'')\<lparr>self_scores := self_scores object_after_first_run,
                                     self_overall_score := Some 3\<rparr>)"
    "self_metrics (init ''a/f.py'') =
      self_metrics ((init ''b/f.py'')\<lparr>self_scores := self_scores object_after_first_run,
                                      self_overall_score := Some 3\<rparr>)"
    by (simp_all add: init_simps b)
  have n: "functions (metrics (report_of_text id ''f.py'' (split_newline code_def_f) tree_def_f)) = 1"
    "total_issues (report_of_text id ''f.py'' (split_newline code_def_f) tree_def_f) = 3"
    by (simp_all add: report_of_text_def metrics_of_text_def issues_of_text_def notions_def_f
        function_defs_def_f)
  note t = new_object_report_is_function_of_text [where parse = "parses_to tree_def_f"
      and cleandoc = id and code = code_def_f and tree = tree_def_f and path = "''a/f.py''"
      and path' = "''b/f.py''" and self = "init ''a/f.py''"
      and self' = "(init ''b/f.py'')\<lparr>self_scores := self_scores object_after_first_run,
                                      self_overall_score := Some 3\<rparr>"
      and fs = "[''a/f.py'' \<mapsto> code_def_f, ''b/f.py'' \<mapsto> code_def_f]"]
  from t p b have 1:
    "map_sum id fst (analyze (parses_to tree_def_f) id code_def_f (init ''a/f.py'')) =
     Inr (report_of_text id ''f.py'' (split_newline code_def_f) tree_def_f)"
    by simp
  from t p o have 2:
    "map_sum id fst (analyze (parses_to tree_def_f) id code_def_f (init ''a/f.py'')) =
     map_sum id fst (analyze (parses_to tree_def_f) id code_def_f
       ((init ''b/f.py'')\<lparr>self_scores := self_scores object_after_first_run,
                           self_overall_score := Some 3\<rparr>))"
    by blast
  from t b have 3:
    "map_sum id fst (analyze (parses_to tree_def_f) id code_def_f (init ''a/f.py'')) =
     map_sum id fst (analyze (parses_to tree_def_f) id code_def_f (init ''b/f.py''))"
    by simp
  from 1 obtain self1 where a:
    "analyze (parses_to tree_def_f) id code_def_f (init ''a/f.py'') =
     Inr (report_of_text id ''f.py'' (split_newline code_def_f) tree_def_f, self1)"
    by (cases "analyze (parses_to tree_def_f) id code_def_f (init ''a/f.py'')") auto
  from t f b have
    "analyze_files (parses_to tree_def_f) id
       [''a/f.py'' \<mapsto> code_def_f, ''b/f.py'' \<mapsto> code_def_f] [''a/f.py'', ''b/f.py''] =
     (case analyze (parses_to tree_def_f) id code_def_f (init ''a/f.py'') of
        Inl err \<Rightarrow> Inl err
      | Inr (rep, self1) \<Rightarrow> Inr [(rep, print_report rep), (rep, print_report rep)])"
    by simp
  then have 4:
    "analyze_files (parses_to tree_def_f) id
       [''a/f.py'' \<mapsto> code_def_f, ''b/f.py'' \<mapsto> code_def_f] [''a/f.py'', ''b/f.py''] =
     Inr [(report_of_text id ''f.py'' (split_newline code_def_f) tree_def_f,
           print_report (report_of_text id ''f.py'' (split_newline code_def_f) tree_def_f)),
          (report_of_text id ''f.py'' (split_newline code_def_f) tree_def_f,
           print_report (report_of_text id ''f.py'' (split_newline code_def_f) tree_def_f))]"
    by (simp add: a)
  from 1 n 2 3 4 show ?thesis by simp
qed

end
